theory Spec2Isabelle
  imports Main
begin

section \<open>ECMAScript time values, as the Date object of the calendar uses them\<close>

text \<open>
  The calendar component (Calendar.js) does all of its date arithmetic through the built-in
  Date object. The numbers that reach it are integers or NaN, so a Number is an
  \<open>int option\<close> with \<open>None\<close> for NaN, and a Date object is its time value:
  milliseconds since 1970-01-01T00:00:00Z, or NaN for an Invalid Date.

  The abstract operations below are the ones of the ECMAScript specification (section
  "Date Objects"), with the names they have there.

  The local time zone is the environment in which the component runs. Its offset from UTC,
  in milliseconds east of UTC, depends on the time (daylight saving, changes of the zone's
  standard time), and the specification asks for it in two ways: \<open>utc_offset\<close> is
  LocalTZA(t, true), the offset in force at the UTC time \<open>t\<close>; \<open>local_offset\<close> is
  LocalTZA(t, false), the offset by which the local time \<open>t\<close> is read, which for a local
  time that is skipped or repeated at a transition is the offset before the transition.
\<close>

type_synonym Number = "int option"

type_synonym Date = "int option"

record Zone =
  utc_offset :: "int \<Rightarrow> int"
  local_offset :: "int \<Rightarrow> int"

definition msPerDay :: int where
  "msPerDay = 86400000"

definition Day :: "int \<Rightarrow> int" where
  "Day t = t div msPerDay"

definition TimeWithinDay :: "int \<Rightarrow> int" where
  "TimeWithinDay t = t mod msPerDay"

definition DaysInYear :: "int \<Rightarrow> int" where
  "DaysInYear y =
     (if y mod 4 \<noteq> 0 then 365
      else if y mod 100 \<noteq> 0 then 366
      else if y mod 400 \<noteq> 0 then 365
      else 366)"

definition DayFromYear :: "int \<Rightarrow> int" where
  "DayFromYear y =
     365 * (y - 1970) + (y - 1969) div 4 - (y - 1901) div 100 + (y - 1601) div 400"

definition TimeFromYear :: "int \<Rightarrow> int" where
  "TimeFromYear y = msPerDay * DayFromYear y"

text \<open>
  YearFromTime(t) is "the largest integer y such that TimeFromYear(y) \<le> t". It is
  computed here from the mean length of a Gregorian year (146097 days in 400 years), one
  year off at most, and corrected; \<open>YearFromTime_largest\<close> below shows that the result is
  the year the specification asks for.
\<close>

definition YearFromTime :: "int \<Rightarrow> int" where
  "YearFromTime t =
     (let d = Day t; y = 1970 + (400 * d) div 146097
      in if d < DayFromYear y then y - 1
         else if DayFromYear (y + 1) \<le> d then y + 1
         else y)"

definition InLeapYear :: "int \<Rightarrow> int" where
  "InLeapYear t = (if DaysInYear (YearFromTime t) = 365 then 0 else 1)"

definition DayWithinYear :: "int \<Rightarrow> int" where
  "DayWithinYear t = Day t - DayFromYear (YearFromTime t)"

definition MonthFromTime :: "int \<Rightarrow> int" where
  "MonthFromTime t =
     (let d = DayWithinYear t; l = InLeapYear t
      in if d < 31 then 0
         else if d < 59 + l then 1
         else if d < 90 + l then 2
         else if d < 120 + l then 3
         else if d < 151 + l then 4
         else if d < 181 + l then 5
         else if d < 212 + l then 6
         else if d < 243 + l then 7
         else if d < 273 + l then 8
         else if d < 304 + l then 9
         else if d < 334 + l then 10
         else 11)"

definition DateFromTime :: "int \<Rightarrow> int" where
  "DateFromTime t =
     (let d = DayWithinYear t; l = InLeapYear t; m = MonthFromTime t
      in if m = 0 then d + 1
         else if m = 1 then d - 30
         else if m = 2 then d - 58 - l
         else if m = 3 then d - 89 - l
         else if m = 4 then d - 119 - l
         else if m = 5 then d - 150 - l
         else if m = 6 then d - 180 - l
         else if m = 7 then d - 211 - l
         else if m = 8 then d - 242 - l
         else if m = 9 then d - 272 - l
         else if m = 10 then d - 303 - l
         else d - 333 - l)"

definition WeekDay :: "int \<Rightarrow> int" where
  "WeekDay t = (Day t + 4) mod 7"

definition LocalTime :: "Zone \<Rightarrow> int \<Rightarrow> int" where
  "LocalTime z t = t + utc_offset z t"

definition UTC :: "Zone \<Rightarrow> int \<Rightarrow> int" where
  "UTC z t = t - local_offset z t"

definition MakeTime :: "int \<Rightarrow> int \<Rightarrow> int \<Rightarrow> int \<Rightarrow> int" where
  "MakeTime hour minute sec ms = hour * 3600000 + minute * 60000 + sec * 1000 + ms"

text \<open>
  MakeDay(year, month, date) finds the day number of the first of month \<open>month mod 12\<close> of
  year \<open>year + month div 12\<close> and adds \<open>date - 1\<close>: a month or a date out of range rolls
  over into the neighbouring months. \<open>DayFromMonth\<close> is the day within the year on which a
  month starts. The day number is computed without a bound; TimeClip checks the range of
  the time value made from it.
\<close>

definition DayFromMonth :: "int \<Rightarrow> int \<Rightarrow> int" where
  "DayFromMonth mn l =
     (if mn = 0 then 0
      else if mn = 1 then 31
      else if mn = 2 then 59 + l
      else if mn = 3 then 90 + l
      else if mn = 4 then 120 + l
      else if mn = 5 then 151 + l
      else if mn = 6 then 181 + l
      else if mn = 7 then 212 + l
      else if mn = 8 then 243 + l
      else if mn = 9 then 273 + l
      else if mn = 10 then 304 + l
      else 334 + l)"

definition MakeDay :: "int \<Rightarrow> int \<Rightarrow> int \<Rightarrow> int" where
  "MakeDay year month date =
     (let ym = year + month div 12; mn = month mod 12
      in DayFromYear ym + DayFromMonth mn (if DaysInYear ym = 365 then 0 else 1) + date - 1)"

definition MakeDate :: "int \<Rightarrow> int \<Rightarrow> int" where
  "MakeDate day time = day * msPerDay + time"

text \<open>MakeFullYear: the Date constructor reads a year from 0 to 99 as 1900 + year.\<close>

definition MakeFullYear :: "int \<Rightarrow> int" where
  "MakeFullYear y = (if 0 \<le> y \<and> y \<le> 99 then 1900 + y else y)"

text \<open>TimeClip: a time value further than 8.64e15 ms from the epoch is NaN.\<close>

definition TimeClip :: "int \<Rightarrow> Date" where
  "TimeClip t = (if \<bar>t\<bar> > 8640000000000000 then None else Some t)"


subsection \<open>Numbers that may be NaN\<close>

definition js_add :: "Number \<Rightarrow> Number \<Rightarrow> Number" where
  "js_add a b = (case a of None \<Rightarrow> None | Some x \<Rightarrow> (case b of None \<Rightarrow> None | Some y \<Rightarrow> Some (x + y)))"

definition js_neg :: "Number \<Rightarrow> Number" where
  "js_neg a = (case a of None \<Rightarrow> None | Some x \<Rightarrow> Some (- x))"

text \<open>A comparison with NaN is false.\<close>

definition js_lt :: "Number \<Rightarrow> Number \<Rightarrow> bool" where
  "js_lt a b = (case a of None \<Rightarrow> False | Some x \<Rightarrow> (case b of None \<Rightarrow> False | Some y \<Rightarrow> x < y))"

definition js_le :: "Number \<Rightarrow> Number \<Rightarrow> bool" where
  "js_le a b = (case a of None \<Rightarrow> False | Some x \<Rightarrow> (case b of None \<Rightarrow> False | Some y \<Rightarrow> x \<le> y))"

subsection \<open>The Date constructor and the methods the component calls\<close>

text \<open>
  \<open>new Date(year, month, date)\<close>: the arguments are local time, the hours, minutes,
  seconds and milliseconds are 0. A NaN argument gives an Invalid Date.
\<close>

definition new_Date :: "Zone \<Rightarrow> Number \<Rightarrow> Number \<Rightarrow> Number \<Rightarrow> Date" where
  "new_Date z year month dt =
     (case year of None \<Rightarrow> None | Some y \<Rightarrow>
      (case month of None \<Rightarrow> None | Some m \<Rightarrow>
       (case dt of None \<Rightarrow> None | Some d \<Rightarrow>
          TimeClip (UTC z (MakeDate (MakeDay (MakeFullYear y) m d) (MakeTime 0 0 0 0))))))"

definition getFullYear :: "Zone \<Rightarrow> Date \<Rightarrow> Number" where
  "getFullYear z d = (case d of None \<Rightarrow> None | Some t \<Rightarrow> Some (YearFromTime (LocalTime z t)))"

definition getMonth :: "Zone \<Rightarrow> Date \<Rightarrow> Number" where
  "getMonth z d = (case d of None \<Rightarrow> None | Some t \<Rightarrow> Some (MonthFromTime (LocalTime z t)))"

definition getDate :: "Zone \<Rightarrow> Date \<Rightarrow> Number" where
  "getDate z d = (case d of None \<Rightarrow> None | Some t \<Rightarrow> Some (DateFromTime (LocalTime z t)))"

definition getDay :: "Zone \<Rightarrow> Date \<Rightarrow> Number" where
  "getDay z d = (case d of None \<Rightarrow> None | Some t \<Rightarrow> Some (WeekDay (LocalTime z t)))"

text \<open>
  \<open>setMonth(month)\<close> keeps the day of the month and the time of day of the receiver
  and hands them to MakeDay with the new month.
\<close>

definition setMonth :: "Zone \<Rightarrow> Date \<Rightarrow> Number \<Rightarrow> Date" where
  "setMonth z d month =
     (case d of None \<Rightarrow> None | Some t0 \<Rightarrow>
      (case month of None \<Rightarrow> None | Some m \<Rightarrow>
         (let t = LocalTime z t0;
              newDate = MakeDate (MakeDay (YearFromTime t) m (DateFromTime t)) (TimeWithinDay t)
          in TimeClip (UTC z newDate))))"

subsection \<open>toISOString\<close>

datatype error = RangeError

definition digit :: "int \<Rightarrow> char" where
  "digit n = ''0123456789'' ! nat (n mod 10)"

fun pad :: "nat \<Rightarrow> int \<Rightarrow> string" where
  "pad 0 n = []"
| "pad (Suc w) n = pad w (n div 10) @ [digit n]"

text \<open>
  The date-time string format: four digits for the years 0 to 9999, a sign and six digits
  for the others.
\<close>

definition year_string :: "int \<Rightarrow> string" where
  "year_string y =
     (if 0 \<le> y \<and> y \<le> 9999 then pad 4 y
      else (if y < 0 then ''-'' else ''+'') @ pad 6 \<bar>y\<bar>)"

definition HourFromTime :: "int \<Rightarrow> int" where
  "HourFromTime t = (t div 3600000) mod 24"

definition MinFromTime :: "int \<Rightarrow> int" where
  "MinFromTime t = (t div 60000) mod 60"

definition SecFromTime :: "int \<Rightarrow> int" where
  "SecFromTime t = (t div 1000) mod 60"

definition msFromTime :: "int \<Rightarrow> int" where
  "msFromTime t = t mod 1000"

text \<open>\<open>toISOString\<close> prints the UTC fields of the time value and throws on an Invalid Date.\<close>

definition toISOString :: "Date \<Rightarrow> error + string" where
  "toISOString d =
     (case d of
        None \<Rightarrow> Inl RangeError
      | Some t \<Rightarrow>
          Inr (year_string (YearFromTime t) @ ''-'' @ pad 2 (MonthFromTime t + 1) @ ''-'' @
               pad 2 (DateFromTime t) @ ''T'' @ pad 2 (HourFromTime t) @ '':'' @
               pad 2 (MinFromTime t) @ '':'' @ pad 2 (SecFromTime t) @ ''.'' @
               pad 3 (msFromTime t) @ ''Z''))"

text \<open>\<open>s.split('T')[0]\<close>: the part of \<open>s\<close> before its first \<open>T\<close>.\<close>

definition split_T_0 :: "string \<Rightarrow> string" where
  "split_T_0 s = takeWhile (\<lambda>c. c \<noteq> CHR ''T'') s"

section \<open>Calendar.js\<close>

subsection \<open>Data\<close>

text \<open>
  The form of the modal (\<open>newTask\<close>) has a title, a description and a priority; a task
  of the server has these and an identifier, a status and a due date that may be absent.
\<close>

record NewTask =
  title :: string
  description :: string
  priority :: string

record Task = NewTask +
  task_id :: string
  due_date :: "string option"
  status :: string

record CalendarDayCell =
  date :: Date
  isCurrentMonth :: bool

text \<open>The state of the component: one field for each \<open>useState\<close>.\<close>

record Calendar =
  currentDate :: Date
  tasks :: "Task list"
  selectedDate :: "Date option"
  showTaskModal :: bool
  newTask :: NewTask
  loading :: bool

text \<open>
  The requests the component sends, and the server as the component sees it: a request
  is rejected (a network failure, a timeout or an error status, which axios all turns
  into a rejected promise) or resolved with data.
\<close>

datatype Request =
  GET_calendar_tasks Number Number
| POST_tasks NewTask string

datatype 'a Response = Rejected | Resolved 'a

record Server =
  get_calendar_tasks :: "Number \<Rightarrow> Number \<Rightarrow> Task list Response"
  post_tasks :: "NewTask \<Rightarrow> string \<Rightarrow> Task Response"

subsection \<open>getDaysInMonth\<close>

text \<open>
  The two shapes of loop of \<open>getDaysInMonth\<close>: \<open>for (let i = lo; i < n; i++)\<close> and
  \<open>for (let i = lo; i <= n; i++)\<close>, each pushing one element per round. The bound may
  be NaN, and then the loop does not run.
\<close>

function for_lt :: "int \<Rightarrow> Number \<Rightarrow> (int \<Rightarrow> 'a) \<Rightarrow> 'a list \<Rightarrow> 'a list" where
  "for_lt i n body days =
     (if js_lt (Some i) n then for_lt (i + 1) n body (days @ [body i]) else days)"
  by pat_completeness auto
termination
  by (relation "measure (\<lambda>(i, n, body, days). case n of None \<Rightarrow> 0 | Some k \<Rightarrow> nat (k - i))")
     (auto simp: js_lt_def split: option.splits)

function for_le :: "int \<Rightarrow> Number \<Rightarrow> (int \<Rightarrow> 'a) \<Rightarrow> 'a list \<Rightarrow> 'a list" where
  "for_le i n body days =
     (if js_le (Some i) n then for_le (i + 1) n body (days @ [body i]) else days)"
  by pat_completeness auto
termination
  by (relation "measure (\<lambda>(i, n, body, days). case n of None \<Rightarrow> 0 | Some k \<Rightarrow> nat (k + 1 - i))")
     (auto simp: js_le_def split: option.splits)

definition getDaysInMonth :: "Zone \<Rightarrow> Date \<Rightarrow> CalendarDayCell list" where
  "getDaysInMonth z d =
     (let year = getFullYear z d;
          month = getMonth z d;
          firstDay = new_Date z year month (Some 1);
          lastDay = new_Date z year (js_add month (Some 1)) (Some 0);
          daysInMonth = getDate z lastDay;
          startingDayOfWeek = getDay z firstDay;
          days = [];
          days = for_lt 0 startingDayOfWeek
            (\<lambda>i. \<lparr>date = new_Date z year month
                          (js_add (js_add (js_neg startingDayOfWeek) (Some i)) (Some 1)),
                  isCurrentMonth = False\<rparr>) days;
          days = for_le 1 daysInMonth
            (\<lambda>day. \<lparr>date = new_Date z year month (Some day), isCurrentMonth = True\<rparr>) days;
          remainingCells = 42 - int (length days);
          days = for_le 1 (Some remainingCells)
            (\<lambda>i. \<lparr>date = new_Date z year (js_add month (Some 1)) (Some i),
                  isCurrentMonth = False\<rparr>) days
      in days)"

subsection \<open>getTasksForDate\<close>

text \<open>
  \<open>task.due_date === dateString\<close>: an absent due date is not equal to any string.
  \<open>toISOString\<close> throws on an Invalid Date, and so does \<open>getTasksForDate\<close>.
\<close>

definition getTasksForDate :: "Task list \<Rightarrow> Date \<Rightarrow> error + Task list" where
  "getTasksForDate ts d =
     (case toISOString d of
        Inl e \<Rightarrow> Inl e
      | Inr str \<Rightarrow>
          (let dateString = split_T_0 str
           in Inr (filter (\<lambda>task. due_date task = Some dateString) ts)))"

subsection \<open>navigateMonth, handleDateClick\<close>

text \<open>
  \<open>new Date(currentDate)\<close> copies the time value; \<open>setMonth\<close> changes the copy, which
  becomes the new \<open>currentDate\<close>.
\<close>

definition navigateMonth :: "Zone \<Rightarrow> int \<Rightarrow> Calendar \<Rightarrow> Calendar" where
  "navigateMonth z direction s =
     (let newDate = currentDate s;
          newDate = setMonth z newDate (js_add (getMonth z (currentDate s)) (Some direction))
      in s\<lparr>currentDate := newDate\<rparr>)"

definition handleDateClick :: "CalendarDayCell \<Rightarrow> Calendar \<Rightarrow> Calendar" where
  "handleDateClick cell s =
     (if \<not> isCurrentMonth cell then s
      else s\<lparr>selectedDate := Some (date cell), showTaskModal := True\<rparr>)"

subsection \<open>fetchCalendarTasks, createTask\<close>

text \<open>
  Both functions return the new state and the requests they sent, in order. An
  \<open>await\<close> is modelled by asking the server for its answer; what the \<open>catch\<close> blocks
  write to the console is left out.
\<close>

definition fetchCalendarTasks :: "Zone \<Rightarrow> Server \<Rightarrow> Calendar \<Rightarrow> Calendar \<times> Request list" where
  "fetchCalendarTasks z server s =
     (let s = s\<lparr>loading := True\<rparr>;
          month = js_add (getMonth z (currentDate s)) (Some 1);
          year = getFullYear z (currentDate s);
          s = (case get_calendar_tasks server month year of
                 Resolved data \<Rightarrow> s\<lparr>tasks := data\<rparr>
               | Rejected \<Rightarrow> s)
      in (s\<lparr>loading := False\<rparr>, [GET_calendar_tasks month year]))"

text \<open>
  JavaScript's \<open>trim\<close> removes white space and line terminators from both ends; among
  the characters of a \<open>string\<close> (code units below 256) these are the tab, the line
  feed, the vertical tab, the form feed, the carriage return, the space and the no-break
  space.
\<close>

definition is_white_space :: "char \<Rightarrow> bool" where
  "is_white_space c =
     (c = CHR 0x09 \<or> c = CHR 0x0A \<or> c = CHR 0x0B \<or> c = CHR 0x0C \<or> c = CHR 0x0D \<or>
      c = CHR 0x20 \<or> c = CHR 0xA0)"

definition trim :: "string \<Rightarrow> string" where
  "trim s = rev (dropWhile is_white_space (rev (dropWhile is_white_space s)))"

definition createTask :: "Zone \<Rightarrow> Server \<Rightarrow> Calendar \<Rightarrow> Calendar \<times> Request list" where
  "createTask z server s =
     (if trim (title (newTask s)) = [] \<or> selectedDate s = None then (s, [])
      else
        (case selectedDate s of
           None \<Rightarrow> (s, [])
         | Some sd \<Rightarrow>
             (case toISOString sd of
                Inl e \<Rightarrow> (s, [])
              | Inr str \<Rightarrow>
                  (let d = split_T_0 str
                   in case post_tasks server (newTask s) d of
                        Rejected \<Rightarrow> (s, [POST_tasks (newTask s) d])
                      | Resolved created \<Rightarrow>
                          (let s1 = s\<lparr>newTask := \<lparr>title = [], description = [],
                                                   priority = ''medium''\<rparr>,
                                       showTaskModal := False,
                                       selectedDate := None\<rparr>;
                               r = fetchCalendarTasks z server s1
                           in (fst r, POST_tasks (newTask s) d # snd r))))))"

subsection \<open>The task indicators of a day cell\<close>

text \<open>
  \<open>dayTasks.slice(0, 3)\<close> are rendered, one line each, and \<open>+n more\<close> after them
  when \<open>dayTasks.length > 3\<close>, with \<open>n = dayTasks.length - 3\<close>.
\<close>

record TaskIndicators =
  rendered :: "Task list"
  more_count :: "nat option"

definition taskIndicators :: "Task list \<Rightarrow> TaskIndicators" where
  "taskIndicators dayTasks =
     \<lparr>rendered = take 3 dayTasks,
      more_count = (if length dayTasks > 3 then Some (length dayTasks - 3) else None)\<rparr>"

text \<open>
  The indicators of one cell of the grid: \<open>dayTasks = getTasksForDate(day.date)\<close>, and
  the indicators of these.
\<close>

definition dayIndicators :: "Task list \<Rightarrow> CalendarDayCell \<Rightarrow> error + TaskIndicators" where
  "dayIndicators ts day =
     (case getTasksForDate ts (date day) of
        Inl e \<Rightarrow> Inl e
      | Inr dayTasks \<Rightarrow> Inr (taskIndicators dayTasks))"

section \<open>Dashboard.js\<close>

record DashboardStats =
  total_tasks :: int
  completed_tasks :: int
  pending_tasks :: int
  overdue_tasks :: int
  today_tasks :: int

record Dashboard =
  stats :: DashboardStats
  recentTasks :: "Task list"
  upcomingTasks :: "Task list"
  dashboard_loading :: bool

text \<open>\<open>Promise.all\<close> of three requests is rejected as soon as one of them is.\<close>

definition Promise_all :: "'a Response \<Rightarrow> 'b Response \<Rightarrow> 'c Response \<Rightarrow> ('a \<times> 'b \<times> 'c) Response" where
  "Promise_all a b c =
     (case a of Rejected \<Rightarrow> Rejected | Resolved x \<Rightarrow>
      (case b of Rejected \<Rightarrow> Rejected | Resolved y \<Rightarrow>
       (case c of Rejected \<Rightarrow> Rejected | Resolved z \<Rightarrow> Resolved (x, y, z))))"

definition fetchDashboardData ::
  "DashboardStats Response \<Rightarrow> Task list Response \<Rightarrow> Task list Response \<Rightarrow> Dashboard \<Rightarrow> Dashboard" where
  "fetchDashboardData statsResponse recentResponse upcomingResponse s =
     (let s = s\<lparr>dashboard_loading := True\<rparr>;
          s = (case Promise_all statsResponse recentResponse upcomingResponse of
                 Resolved (st, re, up) \<Rightarrow> s\<lparr>stats := st, recentTasks := re, upcomingTasks := up\<rparr>
               | Rejected \<Rightarrow> s)
      in s\<lparr>dashboard_loading := False\<rparr>)"

section \<open>The calendar of the specification\<close>

text \<open>
  Calendar days are counted from 1970-01-01, which is day 0; consecutive calendar dates
  are consecutive day numbers. \<open>day_start z n\<close> is the time value that the Date
  constructor makes for 00:00 local time on day \<open>n\<close>, and \<open>local_day z d\<close> is the
  calendar day on which the Date \<open>d\<close> lies in local time.
\<close>

definition day_start :: "Zone \<Rightarrow> int \<Rightarrow> Date" where
  "day_start z n = Some (UTC z (MakeDate n (MakeTime 0 0 0 0)))"

definition local_day :: "Zone \<Rightarrow> Date \<Rightarrow> Number" where
  "local_day z d = (case d of None \<Rightarrow> None | Some t \<Rightarrow> Some (Day (LocalTime z t)))"

text \<open>
  Day \<open>n\<close> exists in a zone when the Date constructor finds it: the time value made for
  00:00 of day \<open>n\<close> is in the range of Date and lies on day \<open>n\<close> in local time. A day
  that the zone skips does not exist: its 00:00 is read with the offset from before the
  transition and lands on the day after. The days from \<open>a\<close> to \<open>b\<close> exist in order
  when each of them exists and the time value made for each is earlier than the one made for
  the next.
\<close>

definition day_exists :: "Zone \<Rightarrow> int \<Rightarrow> bool" where
  "day_exists z n =
     (let v = UTC z (MakeDate n (MakeTime 0 0 0 0))
      in \<bar>v\<bar> \<le> 8640000000000000 \<and> Day (LocalTime z v) = n)"

definition days_exist :: "Zone \<Rightarrow> int \<Rightarrow> int \<Rightarrow> bool" where
  "days_exist z a b =
     (list_all (day_exists z) [a..b] \<and>
      list_all (\<lambda>n. UTC z (MakeDate n (MakeTime 0 0 0 0))
                    < UTC z (MakeDate (n + 1) (MakeTime 0 0 0 0))) [a..b - 1])"

text \<open>
  The day number of the first of month \<open>m\<close> of year \<open>y\<close>, and its weekday, 0 for a
  Sunday (1970-01-01 was a Thursday).
\<close>

definition first_day :: "int \<Rightarrow> int \<Rightarrow> int" where
  "first_day y m = MakeDay y m 1"

definition first_weekday :: "int \<Rightarrow> int \<Rightarrow> int" where
  "first_weekday y m = (first_day y m + 4) mod 7"

text \<open>The \<open>YYYY-MM-DD\<close> key of the calendar day with number \<open>n\<close>.\<close>

definition day_key :: "int \<Rightarrow> string" where
  "day_key n =
     (let t = n * msPerDay
      in year_string (YearFromTime t) @ ''-'' @ pad 2 (MonthFromTime t + 1) @ ''-'' @
         pad 2 (DateFromTime t))"

text \<open>
  The number of days of a month as the specification words it: 28, 29, 30 or 31, with 29
  for February in a leap year. Months are zero-based.
\<close>

definition leap_year :: "int \<Rightarrow> bool" where
  "leap_year y = (y mod 4 = 0 \<and> (y mod 100 \<noteq> 0 \<or> y mod 400 = 0))"

definition DaysInMonth :: "int \<Rightarrow> int \<Rightarrow> int" where
  "DaysInMonth y m =
     (if m = 1 then (if leap_year y then 29 else 28)
      else if m = 3 \<or> m = 5 \<or> m = 8 \<or> m = 10 then 30
      else 31)"

section \<open>Example zones\<close>

text \<open>
  A zone with one offset at all times; Central European Time with the daylight saving of
  2024 (from 31 March 01:00 UTC to 27 October 01:00 UTC); Pacific/Apia around the end of
  2011, when Samoa went from ten hours west to fourteen hours east of UTC at the end of
  29 December and 30 December 2011 was skipped; Pacific/Kiritimati around the end of 1994,
  when the Line Islands went from ten hours west to fourteen hours east of UTC at the end of
  30 December and 31 December 1994 was skipped.
\<close>

definition fixed_zone :: "int \<Rightarrow> Zone" where
  "fixed_zone tza = \<lparr>utc_offset = (\<lambda>t. tza), local_offset = (\<lambda>t. tza)\<rparr>"

definition berlin_2024 :: Zone where
  "berlin_2024 =
     \<lparr>utc_offset = (\<lambda>t. if 1711846800000 \<le> t \<and> t < 1729990800000 then 7200000 else 3600000),
      local_offset = (\<lambda>t. if 1711854000000 \<le> t \<and> t < 1729998000000 then 7200000 else 3600000)\<rparr>"

definition apia_2011 :: Zone where
  "apia_2011 =
     \<lparr>utc_offset = (\<lambda>t. if t < 1325239200000 then - 36000000 else 50400000),
      local_offset = (\<lambda>t. if t < 1325289600000 then - 36000000 else 50400000)\<rparr>"

definition kiritimati_1994 :: Zone where
  "kiritimati_1994 =
     \<lparr>utc_offset = (\<lambda>t. if t < 788868000000 then - 36000000 else 50400000),
      local_offset = (\<lambda>t. if t < 788918400000 then - 36000000 else 50400000)\<rparr>"

section \<open>Example data\<close>

text \<open>
  A state of the calendar on 2024-03-08 at noon UTC, with a day selected and the modal
  open; a task due on 2024-03-15; a server that answers every request and one that
  rejects every request.
\<close>

definition report :: Task where
  "report = \<lparr>title = ''Report'', description = [], priority = ''medium'', task_id = ''1'',
              due_date = Some ''2024-03-15'', status = ''todo''\<rparr>"

definition undated :: Task where
  "undated = \<lparr>title = ''Someday'', description = [], priority = ''low'', task_id = ''2'',
               due_date = None, status = ''todo''\<rparr>"

definition server_up :: Server where
  "server_up =
     \<lparr>get_calendar_tasks = (\<lambda>month year. Resolved [report]),
      post_tasks = (\<lambda>t d. Resolved \<lparr>title = title t, description = description t,
                                   priority = priority t, task_id = ''3'',
                                   due_date = Some d, status = ''todo''\<rparr>)\<rparr>"

definition server_down :: Server where
  "server_down =
     \<lparr>get_calendar_tasks = (\<lambda>month year. Rejected), post_tasks = (\<lambda>t d. Rejected)\<rparr>"

definition modal_open :: "string \<Rightarrow> Calendar" where
  "modal_open t =
     \<lparr>currentDate = Some 1709899200000, tasks = [report],
      selectedDate = Some (Some 1710460800000), showTaskModal = True,
      newTask = \<lparr>title = t, description = ''weekly'', priority = ''high''\<rparr>,
      loading = False\<rparr>"

definition calendar_idle :: Calendar where
  "calendar_idle =
     \<lparr>currentDate = Some 1709899200000, tasks = [report],
      selectedDate = None, showTaskModal = False,
      newTask = \<lparr>title = [], description = [], priority = ''medium''\<rparr>,
      loading = False\<rparr>"

definition stats_example :: DashboardStats where
  "stats_example =
     \<lparr>total_tasks = 7, completed_tasks = 3, pending_tasks = 4, overdue_tasks = 1,
      today_tasks = 2\<rparr>"

definition dashboard_initial :: Dashboard where
  "dashboard_initial =
     \<lparr>stats = \<lparr>total_tasks = 0, completed_tasks = 0, pending_tasks = 0, overdue_tasks = 0,
                today_tasks = 0\<rparr>,
      recentTasks = [], upcomingTasks = [], dashboard_loading = True\<rparr>"

section \<open>Properties of the time-value arithmetic\<close>

lemma div_bounds:
  fixes a n :: int
  assumes "0 < n"
  shows "n * (a div n) \<le> a" and "a < n * (a div n) + n"
proof -
  have "a = n * (a div n) + a mod n" by simp
  moreover have "0 \<le> a mod n" "a mod n < n" using assms by simp_all
  ultimately show "n * (a div n) \<le> a" and "a < n * (a div n) + n" by linarith+
qed

lemma div_step:
  fixes a n :: int
  assumes n: "1 < n"
  shows "(a + 1) div n = a div n + (if (a + 1) mod n = 0 then 1 else 0)"
proof -
  define q where "q = a div n"
  define r where "r = a mod n"
  have a: "a = n * q + r" by (simp add: q_def r_def)
  have r: "0 \<le> r" "r < n" using n by (simp_all add: r_def)
  show ?thesis
  proof (cases "r + 1 = n")
    case True
    have e: "a + 1 = n * (q + 1) + 0" using a True by (simp add: algebra_simps)
    have "(a + 1) div n = q + 1" "(a + 1) mod n = 0"
      using int_div_pos_eq[OF e] int_mod_pos_eq[OF e] n by simp_all
    then show ?thesis by (simp add: q_def)
  next
    case False
    have e: "a + 1 = n * q + (r + 1)" using a by simp
    have "(a + 1) div n = q" "(a + 1) mod n = r + 1"
      using int_div_pos_eq[OF e] int_mod_pos_eq[OF e] r False by simp_all
    then show ?thesis using r by (simp add: q_def)
  qed
qed

lemma mod_shift: "(y - n * k) mod n = (y::int) mod n"
  by (simp add: mod_diff_right_eq[symmetric, of y "n * k" n] del: mod_diff_right_eq)

lemma m100_4: "(y::int) mod 100 = 0 \<Longrightarrow> y mod 4 = 0" 
  using mod_mod_cancel[of 4 100 y] by simp

lemma m400_100: "(y::int) mod 400 = 0 \<Longrightarrow> y mod 100 = 0" 
  using mod_mod_cancel[of 100 400 y] by simp

lemma DayFromYear_step: "DayFromYear (y + 1) = DayFromYear y + DaysInYear y"
proof -
  have a: "(y + 1 - 1969) div 4 = (y - 1969) div 4 + (if y mod 4 = 0 then 1 else 0)"
    using div_step[of 4 "y - 1969"] mod_shift[of y 4 492] by (simp add: algebra_simps)
  have b: "(y + 1 - 1901) div 100 = (y - 1901) div 100 + (if y mod 100 = 0 then 1 else 0)"
    using div_step[of 100 "y - 1901"] mod_shift[of y 100 19] by (simp add: algebra_simps)
  have c: "(y + 1 - 1601) div 400 = (y - 1601) div 400 + (if y mod 400 = 0 then 1 else 0)"
    using div_step[of 400 "y - 1601"] mod_shift[of y 400 4] by (simp add: algebra_simps)
  show ?thesis
    unfolding DayFromYear_def DaysInYear_def a b c
    using m100_4[of y] m400_100[of y] by auto
qed

lemma DayFromYear_bounds:
  "146097 * (y - 1970) - 506 \<le> 400 * DayFromYear y"
  "400 * DayFromYear y \<le> 146097 * (y - 1970) + 589"
proof -
  define a where "a = (y - 1969) div 4"
  define b where "b = (y - 1901) div 100"
  define c where "c = (y - 1601) div 400"
  have a: "4 * a \<le> y - 1969" "y - 1969 < 4 * a + 4"
    unfolding a_def by (rule div_bounds; simp)+
  have b: "100 * b \<le> y - 1901" "y - 1901 < 100 * b + 100"
    unfolding b_def by (rule div_bounds; simp)+
  have c: "400 * c \<le> y - 1601" "y - 1601 < 400 * c + 400"
    unfolding c_def by (rule div_bounds; simp)+
  have d: "DayFromYear y = 365 * (y - 1970) + a - b + c"
    by (simp add: DayFromYear_def a_def b_def c_def)
  show "146097 * (y - 1970) - 506 \<le> 400 * DayFromYear y"
    using a(2) b(1) c(2) by (simp add: d)
  show "400 * DayFromYear y \<le> 146097 * (y - 1970) + 589"
    using a(1) b(2) c(1) by (simp add: d)
qed

lemma DaysInYear_pos: "365 \<le> DaysInYear y" "DaysInYear y \<le> 366"
  by (simp_all add: DaysInYear_def)

lemma DayFromYear_less: "y < y' \<Longrightarrow> DayFromYear y < DayFromYear y'"
proof (induction y' rule: int_gr_induct)
  case base
  then show ?case using DayFromYear_step[of y] DaysInYear_pos(1)[of y] by simp
next
  case (step i)
  then show ?case using DayFromYear_step[of i] DaysInYear_pos(1)[of i] by simp
qed

lemma DayFromYear_mono: "y \<le> y' \<Longrightarrow> DayFromYear y \<le> DayFromYear y'"
  using DayFromYear_less[of y y'] by (cases "y = y'") simp_all

lemma YearFromTime_bounds:
  "DayFromYear (YearFromTime t) \<le> Day t" "Day t < DayFromYear (YearFromTime t + 1)"
proof -
  define d where "d = Day t"
  define y where "y = 1970 + (400 * d) div 146097"
  have q: "146097 * (y - 1970) \<le> 400 * d" "400 * d < 146097 * (y - 1970) + 146097"
    using div_bounds[of 146097 "400 * d"] by (simp_all add: y_def)
  have r: "YearFromTime t =
      (if d < DayFromYear y then y - 1 else if DayFromYear (y + 1) \<le> d then y + 1 else y)"
    by (simp add: YearFromTime_def Let_def d_def y_def)
  have lo: "DayFromYear (y - 1) \<le> d"
    using DayFromYear_bounds(2)[of "y - 1"] q(1) by simp
  have hi: "d < DayFromYear (2 + y)"
    using DayFromYear_bounds(1)[of "2 + y"] q(2) by simp
  show "DayFromYear (YearFromTime t) \<le> Day t"
    using lo by (simp add: r d_def[symmetric])
  show "Day t < DayFromYear (YearFromTime t + 1)"
    using hi by (simp add: r d_def[symmetric])
qed

lemma YearFromTime_unique:
  assumes "DayFromYear y \<le> Day t" "Day t < DayFromYear (y + 1)"
  shows "YearFromTime t = y"
proof (rule ccontr)
  assume ne: "YearFromTime t \<noteq> y"
  show False
  proof (cases "YearFromTime t < y")
    case True
    then have "DayFromYear (YearFromTime t + 1) \<le> DayFromYear y"
      by (intro DayFromYear_mono) simp
    with assms(1) YearFromTime_bounds(2)[of t] show False by simp
  next
    case False
    with ne have "DayFromYear (y + 1) \<le> DayFromYear (YearFromTime t)"
      by (intro DayFromYear_mono) simp
    with assms(2) YearFromTime_bounds(1)[of t] show False by simp
  qed
qed

lemma Day_le_iff: "n * msPerDay \<le> t \<longleftrightarrow> n \<le> Day t"
proof -
  define q where "q = t div 86400000"
  have "86400000 * q \<le> t" "t < 86400000 * q + 86400000"
    using div_bounds[of 86400000 t] by (simp_all add: q_def)
  then have "n * 86400000 \<le> t \<longleftrightarrow> n \<le> q" by linarith
  then show ?thesis by (simp add: Day_def msPerDay_def q_def)
qed

lemma Day_MakeDate: "0 \<le> time \<Longrightarrow> time < msPerDay \<Longrightarrow> Day (MakeDate day time) = day"
  unfolding Day_def MakeDate_def msPerDay_def
  by (rule int_div_pos_eq[of _ _ _ time]) simp_all

theorem YearFromTime_largest:
  "TimeFromYear (YearFromTime t) \<le> t \<and> (\<forall>y. TimeFromYear y \<le> t \<longrightarrow> y \<le> YearFromTime t)"
proof -
  have le: "TimeFromYear y \<le> t \<longleftrightarrow> DayFromYear y \<le> Day t" for y
    using Day_le_iff[of "DayFromYear y" t] by (simp add: TimeFromYear_def mult.commute)
  have "y \<le> YearFromTime t" if "DayFromYear y \<le> Day t" for y
  proof (rule ccontr)
    assume "\<not> y \<le> YearFromTime t"
    then have "DayFromYear (YearFromTime t + 1) \<le> DayFromYear y"
      by (intro DayFromYear_mono) simp
    with that YearFromTime_bounds(2)[of t] show False by simp
  qed
  then show ?thesis using YearFromTime_bounds(1)[of t] by (simp add: le)
qed

section \<open>Months and days of the month\<close>

lemma MonthFromTime_range: "0 \<le> MonthFromTime t" "MonthFromTime t \<le> 11"
  by (simp_all add: MonthFromTime_def Let_def)

lemma leap_rule:
  "(if \<not> a then (365::int) else if \<not> b then 366 else if \<not> c then 365 else 366) =
   (if a \<and> (\<not> b \<or> c) then 366 else 365)"
  by (cases a; cases b; cases c; simp)

lemma DaysInYear_leap: "DaysInYear y = (if leap_year y then 366 else 365)"
  unfolding DaysInYear_def leap_year_def
  using leap_rule[of "y mod 4 = 0" "y mod 100 = 0" "y mod 400 = 0"]
  by (simp only: not_not)

lemma month_cases:
  fixes m :: int
  assumes "0 \<le> m" "m \<le> 11"
  shows "m = 0 \<or> m = 1 \<or> m = 2 \<or> m = 3 \<or> m = 4 \<or> m = 5 \<or> m = 6 \<or> m = 7 \<or> m = 8 \<or> m = 9
         \<or> m = 10 \<or> m = 11"
proof -
  have "m \<in> set [0..11]" using assms by simp
  also have "[0..11] = [0,1,2,3,4,5,6,7,8,9,10,11::int]" by code_simp
  finally show ?thesis by simp
qed

lemma MakeDay_month:
  "0 \<le> m \<Longrightarrow> m \<le> 11 \<Longrightarrow>
   MakeDay y m dt = DayFromYear y + DayFromMonth m (if leap_year y then 1 else 0) + dt - 1"
  by (simp add: MakeDay_def Let_def DaysInYear_leap)

lemma MakeDay_add: "MakeDay y m (a + b) = MakeDay y m a + b"
  by (simp add: MakeDay_def Let_def)

lemma MakeDay_next:
  assumes "0 \<le> m" "m \<le> 11"
  shows "MakeDay y (m + 1) dt = MakeDay y m dt + DaysInMonth y m"
proof (cases "m = 11")
  case True
  have "MakeDay y 12 dt = DayFromYear (y + 1) + dt - 1"
    by (simp add: MakeDay_def Let_def DayFromMonth_def)
  then show ?thesis
    using True by (simp add: MakeDay_month DayFromYear_step DaysInYear_leap DayFromMonth_def DaysInMonth_def)
next
  case False
  with assms have "m + 1 \<le> 11" by simp
  then show ?thesis
    using month_cases[OF assms] False assms
    by (elim disjE; simp add: MakeDay_month DayFromMonth_def DaysInMonth_def)
qed

lemma DayFromMonth_range:
  assumes "0 \<le> m" "m \<le> 11" "1 \<le> dt" "dt \<le> DaysInMonth y m"
  shows "0 \<le> DayFromMonth m (if leap_year y then 1 else 0) + dt - 1"
    and "DayFromMonth m (if leap_year y then 1 else 0) + dt - 1 < DaysInYear y"
  using month_cases[OF assms(1,2)] assms(3,4)
  by (elim disjE; simp add: DayFromMonth_def DaysInMonth_def DaysInYear_leap split: if_splits)+

text \<open>
  MakeDay finds the day it is asked for: the year, month and date of day
  \<open>MakeDay y m dt\<close> are \<open>y\<close>, \<open>m\<close> and \<open>dt\<close>, for a month from 0 to 11 and a date
  of that month.
\<close>

lemma fields_of_MakeDay:
  assumes m: "0 \<le> m" "m \<le> 11" and dt: "1 \<le> dt" "dt \<le> DaysInMonth y m"
    and t: "Day t = MakeDay y m dt"
  shows "YearFromTime t = y" and "MonthFromTime t = m" and "DateFromTime t = dt"
proof -
  define l :: int where "l = (if leap_year y then 1 else 0)"
  have d: "Day t = DayFromYear y + (DayFromMonth m l + dt - 1)"
    using t m by (simp add: MakeDay_month l_def)
  have r: "0 \<le> DayFromMonth m l + dt - 1" "DayFromMonth m l + dt - 1 < DaysInYear y"
    using DayFromMonth_range[OF m dt] by (simp_all add: l_def)
  show y: "YearFromTime t = y"
    using d r by (intro YearFromTime_unique) (simp_all add: DayFromYear_step)
  have w: "DayWithinYear t = DayFromMonth m l + dt - 1"
    using d by (simp add: DayWithinYear_def y)
  have i: "InLeapYear t = l"
    by (simp add: InLeapYear_def y DaysInYear_leap l_def)
  have l: "0 \<le> l" "l \<le> 1" by (simp_all add: l_def)
  have n: "DaysInMonth y m \<le> (if m = 1 then 28 + l else 31)"
    by (simp add: DaysInMonth_def l_def)
  show mm: "MonthFromTime t = m"
    using month_cases[OF m] dt n l
    by (elim disjE; simp add: MonthFromTime_def Let_def w i DayFromMonth_def DaysInMonth_def)
  show "DateFromTime t = dt"
    using month_cases[OF m]
    by (elim disjE; simp add: DateFromTime_def Let_def mm w i DayFromMonth_def)
qed

lemma MakeDay_normal: "MakeDay y m dt = MakeDay (y + m div 12) (m mod 12) dt"
  by (simp add: MakeDay_def Let_def)

lemma TimeWithinDay_range: "0 \<le> TimeWithinDay t" "TimeWithinDay t < msPerDay"
  by (simp_all add: TimeWithinDay_def msPerDay_def)

lemma fields_by_day:
  assumes "Day t = Day t'"
  shows "YearFromTime t = YearFromTime t'" "MonthFromTime t = MonthFromTime t'"
    "DateFromTime t = DateFromTime t'"
proof -
  show y: "YearFromTime t = YearFromTime t'" using assms by (simp add: YearFromTime_def)
  have w: "DayWithinYear t = DayWithinYear t'" using assms y by (simp add: DayWithinYear_def)
  have l: "InLeapYear t = InLeapYear t'" using y by (simp add: InLeapYear_def)
  show m: "MonthFromTime t = MonthFromTime t'" by (simp add: MonthFromTime_def w l)
  show "DateFromTime t = DateFromTime t'" by (simp add: DateFromTime_def w l m)
qed

section \<open>The loops of getDaysInMonth\<close>

text \<open>
  The defining equations of the loops rewrite a loop into itself; they are used by hand.
\<close>

declare for_lt.simps [simp del] for_le.simps [simp del]

lemma for_lt_NaN: "for_lt i None body days = days"
  by (simp add: for_lt.simps[of i] js_lt_def)

lemma for_le_NaN: "for_le i None body days = days"
  by (simp add: for_le.simps[of i] js_le_def)

lemma for_lt_Some: "for_lt i (Some n) body days = days @ map body [i..n - 1]"
proof (induction i "Some n" body days rule: for_lt.induct)
  case (1 i body days)
  show ?case
  proof (cases "i < n")
    case True
    then have "[i..n - 1] = i # [i + 1..n - 1]" by (simp add: upto_rec1)
    with True 1 show ?thesis by (simp add: for_lt.simps[of i] js_lt_def)
  next
    case False
    then show ?thesis by (simp add: for_lt.simps[of i] js_lt_def)
  qed
qed

lemma for_le_Some: "for_le i (Some n) body days = days @ map body [i..n]"
proof (induction i "Some n" body days rule: for_le.induct)
  case (1 i body days)
  show ?case
  proof (cases "i \<le> n")
    case True
    then have "[i..n] = i # [i + 1..n]" by (simp add: upto_rec1)
    with True 1 show ?thesis by (simp add: for_le.simps[of i] js_le_def)
  next
    case False
    then show ?thesis by (simp add: for_le.simps[of i] js_le_def)
  qed
qed

lemma WeekDay_range: "0 \<le> WeekDay t" "WeekDay t \<le> 6"
  by (simp_all add: WeekDay_def) 

lemma DayWithinYear_range: "0 \<le> DayWithinYear t" "DayWithinYear t < 365 + InLeapYear t"
  using YearFromTime_bounds[of t] DayFromYear_step[of "YearFromTime t"] DaysInYear_pos[of "YearFromTime t"]
  by (auto simp: DayWithinYear_def InLeapYear_def DaysInYear_def split: if_splits)

lemma InLeapYear_cases: "InLeapYear t = 0 \<or> InLeapYear t = 1"
  by (simp add: InLeapYear_def)

lemma DateFromTime_range: "1 \<le> DateFromTime t" "DateFromTime t \<le> 31"
  using DayWithinYear_range[of t] InLeapYear_cases[of t]
  unfolding DateFromTime_def MonthFromTime_def Let_def
  by (auto split: if_splits)

lemma getDay_cases:
  "getDay z d = None \<or> (\<exists>w. getDay z d = Some w \<and> 0 \<le> w \<and> w \<le> 6)"
  using WeekDay_range by (cases d) (simp_all add: getDay_def)

lemma getDate_cases:
  "getDate z d = None \<or> (\<exists>n. getDate z d = Some n \<and> 1 \<le> n \<and> n \<le> 31)"
  using DateFromTime_range by (cases d) (simp_all add: getDate_def)

section \<open>The calendar grid\<close>

text \<open>
  Claim C1. The grid builder returns exactly 42 cells, for every date it is given and in
  every time zone, whatever its offsets are: a date of any year and month, and an Invalid
  Date as well. The function
  is total: no operation it uses throws, and its three loops terminate.
\<close>

theorem getDaysInMonth_length: "length (getDaysInMonth z d) = 42"
proof -
  define year where "year = getFullYear z d"
  define month where "month = getMonth z d"
  define sdow where "sdow = getDay z (new_Date z year month (Some 1))"
  define dim where "dim = getDate z (new_Date z year (js_add month (Some 1)) (Some 0))"
  define leading where "leading = for_lt 0 sdow
     (\<lambda>i. \<lparr>date = new_Date z year month (js_add (js_add (js_neg sdow) (Some i)) (Some 1)),
           isCurrentMonth = False\<rparr>) []"
  define current where "current = for_le 1 dim
     (\<lambda>day. \<lparr>date = new_Date z year month (Some day), isCurrentMonth = True\<rparr>) leading"
  have g: "getDaysInMonth z d = for_le 1 (Some (42 - int (length current)))
     (\<lambda>i. \<lparr>date = new_Date z year (js_add month (Some 1)) (Some i), isCurrentMonth = False\<rparr>)
     current"
    by (simp add: getDaysInMonth_def Let_def year_def month_def sdow_def dim_def leading_def
        current_def)
  have l: "length leading \<le> 6"
    using getDay_cases[of z "new_Date z year month (Some 1)"]
    by (auto simp: leading_def sdow_def[symmetric] for_lt_NaN for_lt_Some)
  have "length current \<le> length leading + 31"
    using getDate_cases[of z "new_Date z year (js_add month (Some 1)) (Some 0)"]
    by (auto simp: current_def dim_def[symmetric] for_le_NaN for_le_Some)
  with l have "length current \<le> 37" by simp
  then show ?thesis by (simp add: g for_le_Some)
qed

theorem getDaysInMonth_length_witness:
  "length (getDaysInMonth (fixed_zone 3600000) (Some 1709899200000)) = 42
   \<and> length (getDaysInMonth berlin_2024 (Some 1709899200000)) = 42
   \<and> length (getDaysInMonth (fixed_zone 0) None) = 42"
  using getDaysInMonth_length[of "fixed_zone 3600000" "Some 1709899200000"]
    getDaysInMonth_length[of berlin_2024 "Some 1709899200000"]
    getDaysInMonth_length[of "fixed_zone 0" None]
  by simp

subsection \<open>The cells of a month\<close>

lemma map_upto_shift: "map f [a..b] = map (\<lambda>i. f (i - k)) [a + k..b + k]"
proof (induction a b rule: upto.induct)
  case (1 i j)
  show ?case
  proof (cases "i \<le> j")
    case True
    then have "[i..j] = i # [i + 1..j]" "[i + k..j + k] = (i + k) # [i + 1 + k..j + k]"
      by (simp_all add: upto_rec1 add.commute add.left_commute)
    with 1 True show ?thesis by simp
  next
    case False
    then show ?thesis by simp
  qed
qed

lemma Day_midnight: "Day (n * msPerDay) = n"
  by (simp add: Day_def msPerDay_def)

lemma DaysInMonth_range: "28 \<le> DaysInMonth y m" "DaysInMonth y m \<le> 31"
  by (simp_all add: DaysInMonth_def)

lemma first_weekday_range: "0 \<le> first_weekday y m" "first_weekday y m \<le> 6"
  by (simp_all add: first_weekday_def)

lemma upto_three:
  assumes "0 \<le> w" "1 \<le> n" "w + n \<le> 42"
  shows "[0..41] = [0..w - 1] @ [w..w + n - 1] @ [w + n..41]"
proof -
  have "[0..41] = [0..w - 1] @ [w..41]"
    using assms by (intro upto_split1) simp_all
  also have "[w..41] = [w..w + n - 1] @ [w + n..41]"
  proof (cases "w + n \<le> 41")
    case True
    then show ?thesis using assms by (intro upto_split1) simp_all
  next
    case False
    with assms have "w + n = 42" by simp
    then have "w + n - 1 = 41" "[w + n..41] = []" by simp_all
    then show ?thesis by simp
  qed
  finally show ?thesis .
qed

lemma takeWhile_prefix:
  assumes "\<And>x. x \<in> set xs \<Longrightarrow> P x" "\<not> P y"
  shows "takeWhile P (xs @ y # ys) = xs"
  using assms by (induction xs) simp_all

text \<open>
  The shape of the grid, whatever the zone and the dates are: \<open>w\<close> leading cells, \<open>n\<close>
  cells of the month and the trailing cells, where \<open>w\<close> is what \<open>getDay\<close> returns for
  \<open>firstDay\<close> and \<open>n\<close> what \<open>getDate\<close> returns for \<open>lastDay\<close>.
\<close>

lemma grid_shape:
  assumes yr: "getFullYear z d = Some y" and mo: "getMonth z d = Some m"
    and sd: "getDay z (new_Date z (Some y) (Some m) (Some 1)) = Some w"
    and dm: "getDate z (new_Date z (Some y) (Some (m + 1)) (Some 0)) = Some n"
  shows "getDaysInMonth z d =
     map (\<lambda>i. \<lparr>date = new_Date z (Some y) (Some m) (Some (i - w + 1)),
               isCurrentMonth = False\<rparr>) [0..w - 1] @
     map (\<lambda>i. \<lparr>date = new_Date z (Some y) (Some m) (Some (i - w + 1)),
               isCurrentMonth = True\<rparr>) [w..w + n - 1] @
     map (\<lambda>i. \<lparr>date = new_Date z (Some y) (Some (m + 1)) (Some (i - w - n + 1)),
               isCurrentMonth = False\<rparr>) [w + n..41]"
    and "0 \<le> w" and "w \<le> 6" and "1 \<le> n" and "n \<le> 31"
proof -
  show w: "0 \<le> w" "w \<le> 6"
    using getDay_cases[of z "new_Date z (Some y) (Some m) (Some 1)"] sd by simp_all
  show n: "1 \<le> n" "n \<le> 31"
    using getDate_cases[of z "new_Date z (Some y) (Some (m + 1)) (Some 0)"] dm by simp_all
  define leading where "leading =
    map (\<lambda>i. \<lparr>date = new_Date z (Some y) (Some m) (Some (i - w + 1)),
              isCurrentMonth = False\<rparr>) [0..w - 1]"
  define current where "current =
    map (\<lambda>i. \<lparr>date = new_Date z (Some y) (Some m) (Some (i - w + 1)),
              isCurrentMonth = True\<rparr>) [w..w + n - 1]"
  define trailing where "trailing =
    map (\<lambda>i. \<lparr>date = new_Date z (Some y) (Some (m + 1)) (Some (i - w - n + 1)),
              isCurrentMonth = False\<rparr>) [w + n..41]"
  have l: "for_lt 0 (Some w)
     (\<lambda>i. \<lparr>date = new_Date z (Some y) (Some m) (js_add (js_add (js_neg (Some w)) (Some i)) (Some 1)),
           isCurrentMonth = False\<rparr>) [] = leading"
    unfolding for_lt_Some leading_def
    by (simp add: js_add_def js_neg_def algebra_simps)
  have c: "for_le 1 (Some n)
     (\<lambda>day. \<lparr>date = new_Date z (Some y) (Some m) (Some day), isCurrentMonth = True\<rparr>) leading
     = leading @ current"
    unfolding current_def for_le_Some
    using map_upto_shift[of "\<lambda>day. \<lparr>date = new_Date z (Some y) (Some m) (Some day), isCurrentMonth = True\<rparr>"
        1 n "w - 1"]
    by (simp add: algebra_simps)
  have len: "42 - int (length (leading @ current)) = 42 - w - n"
    using w n by (simp add: leading_def current_def)
  have tr: "for_le 1 (Some (42 - w - n))
     (\<lambda>i. \<lparr>date = new_Date z (Some y) (Some (m + 1)) (Some i), isCurrentMonth = False\<rparr>)
     (leading @ current) = leading @ current @ trailing"
    unfolding trailing_def for_le_Some
    using map_upto_shift[of "\<lambda>i. \<lparr>date = new_Date z (Some y) (Some (m + 1)) (Some i), isCurrentMonth = False\<rparr>"
        1 "42 - w - n" "w + n - 1"]
    by (simp add: algebra_simps)
  have m1: "js_add (Some m) (Some 1) = Some (m + 1)" by (simp add: js_add_def)
  have "getDaysInMonth z d = leading @ current @ trailing"
    unfolding getDaysInMonth_def Let_def yr mo m1 sd dm l c len tr ..
  then show "getDaysInMonth z d =
     map (\<lambda>i. \<lparr>date = new_Date z (Some y) (Some m) (Some (i - w + 1)),
               isCurrentMonth = False\<rparr>) [0..w - 1] @
     map (\<lambda>i. \<lparr>date = new_Date z (Some y) (Some m) (Some (i - w + 1)),
               isCurrentMonth = True\<rparr>) [w..w + n - 1] @
     map (\<lambda>i. \<lparr>date = new_Date z (Some y) (Some (m + 1)) (Some (i - w - n + 1)),
               isCurrentMonth = False\<rparr>) [w + n..41]"
    by (simp add: leading_def current_def trailing_def)
qed

lemma shape_counts:
  assumes g: "cells =
     map (\<lambda>i. \<lparr>date = f i, isCurrentMonth = False\<rparr>) [0..w - 1] @
     map (\<lambda>i. \<lparr>date = g i, isCurrentMonth = True\<rparr>) [w..w + n - 1] @
     map (\<lambda>i. \<lparr>date = h i, isCurrentMonth = False\<rparr>) [w + n..41]"
    and w: "0 \<le> w" "w \<le> 6" and n: "1 \<le> n" "n \<le> 31"
  shows "length (takeWhile (\<lambda>c. \<not> isCurrentMonth c) cells) = nat w"
    and "length (filter isCurrentMonth cells) = nat n"
    and "length (takeWhile (\<lambda>c. \<not> isCurrentMonth c) (rev cells)) = nat (42 - w - n)"
proof -
  have first: "[w..w + n - 1] = w # [w + 1..w + n - 1]"
    using n by (intro upto_rec1) simp
  have last: "[w..w + n - 1] = [w..w + n - 2] @ [w + n - 1]"
    using n upto_rec2[of w "w + n - 1"] by simp
  have "takeWhile (\<lambda>c. \<not> isCurrentMonth c)
      (map (\<lambda>i. \<lparr>date = f i, isCurrentMonth = False\<rparr>) [0..w - 1] @
       \<lparr>date = g w, isCurrentMonth = True\<rparr> #
       (map (\<lambda>i. \<lparr>date = g i, isCurrentMonth = True\<rparr>) [w + 1..w + n - 1] @
        map (\<lambda>i. \<lparr>date = h i, isCurrentMonth = False\<rparr>) [w + n..41]))
      = map (\<lambda>i. \<lparr>date = f i, isCurrentMonth = False\<rparr>) [0..w - 1]"
    by (rule takeWhile_prefix) auto
  then show "length (takeWhile (\<lambda>c. \<not> isCurrentMonth c) cells) = nat w"
    unfolding g first using w by simp
  show "length (filter isCurrentMonth cells) = nat n"
    unfolding g using n by (simp add: filter_map o_def)
  have "takeWhile (\<lambda>c. \<not> isCurrentMonth c)
      (rev (map (\<lambda>i. \<lparr>date = h i, isCurrentMonth = False\<rparr>) [w + n..41]) @
       \<lparr>date = g (w + n - 1), isCurrentMonth = True\<rparr> #
       (rev (map (\<lambda>i. \<lparr>date = g i, isCurrentMonth = True\<rparr>) [w..w + n - 2]) @
        rev (map (\<lambda>i. \<lparr>date = f i, isCurrentMonth = False\<rparr>) [0..w - 1])))
      = rev (map (\<lambda>i. \<lparr>date = h i, isCurrentMonth = False\<rparr>) [w + n..41])"
    by (rule takeWhile_prefix) auto
  then show "length (takeWhile (\<lambda>c. \<not> isCurrentMonth c) (rev cells)) = nat (42 - w - n)"
    unfolding g last using w n by simp
qed

subsection \<open>Days that exist in the zone\<close>

lemma day_existsD:
  assumes "day_exists z n"
  shows "TimeClip (UTC z (MakeDate n (MakeTime 0 0 0 0))) = day_start z n"
    and "Day (LocalTime z (UTC z (MakeDate n (MakeTime 0 0 0 0)))) = n"
  using assms by (simp_all add: day_exists_def Let_def TimeClip_def day_start_def)

lemma new_Date_day:
  assumes y: "y < 0 \<or> 99 < y" and e: "day_exists z (MakeDay y m k)"
  shows "new_Date z (Some y) (Some m) (Some k) = day_start z (MakeDay y m k)"
proof -
  have "MakeFullYear y = y" using y by (auto simp: MakeFullYear_def)
  then show ?thesis by (simp add: new_Date_def day_existsD(1)[OF e])
qed

lemma day_start_day:
  assumes "day_exists z n"
  shows "local_day z (day_start z n) = Some n"
    and "getDay z (day_start z n) = Some ((n + 4) mod 7)"
  using day_existsD(2)[OF assms]
  by (simp_all add: local_day_def getDay_def day_start_def WeekDay_def)

lemma day_start_fields:
  assumes m: "0 \<le> m" "m \<le> 11" and dt: "1 \<le> dt" "dt \<le> DaysInMonth y m"
    and e: "day_exists z (MakeDay y m dt)"
  shows "getFullYear z (day_start z (MakeDay y m dt)) = Some y"
    and "getMonth z (day_start z (MakeDay y m dt)) = Some m"
    and "getDate z (day_start z (MakeDay y m dt)) = Some dt"
  using fields_of_MakeDay[OF m dt day_existsD(2)[OF e]]
  by (simp_all add: getFullYear_def getMonth_def getDate_def day_start_def)

lemma getMonth_range:
  assumes "getMonth z d = Some m"
  shows "0 \<le> m" "m \<le> 11"
proof -
  obtain t where "d = Some t" using assms by (cases d) (simp_all add: getMonth_def)
  then show "0 \<le> m" "m \<le> 11"
    using assms MonthFromTime_range[of "LocalTime z t"] by (auto simp: getMonth_def)
qed

text \<open>
  When the first and the last day of the month exist in the zone, \<open>getDay\<close> of
  \<open>firstDay\<close> is the weekday of the first of the month and \<open>getDate\<close> of \<open>lastDay\<close>
  is the number of days of the month.
\<close>

lemma month_ends:
  assumes mo: "getMonth z d = Some m" and y2: "y < 0 \<or> 99 < y"
    and e1: "day_exists z (first_day y m)"
    and e2: "day_exists z (first_day y m + DaysInMonth y m - 1)"
  shows "getDay z (new_Date z (Some y) (Some m) (Some 1)) = Some (first_weekday y m)"
    and "getDate z (new_Date z (Some y) (Some (m + 1)) (Some 0)) = Some (DaysInMonth y m)"
proof -
  note m = getMonth_range[OF mo]
  have md: "MakeDay y m k = first_day y m + k - 1" for k
    using MakeDay_add[of y m 1 "k - 1"] by (simp add: first_day_def)
  have e1': "day_exists z (MakeDay y m 1)" using e1 by (simp add: first_day_def)
  show "getDay z (new_Date z (Some y) (Some m) (Some 1)) = Some (first_weekday y m)"
    using day_start_day(2)[OF e1]
    by (simp add: new_Date_day[OF y2 e1'] first_weekday_def first_day_def)
  have last: "MakeDay y (m + 1) 0 = MakeDay y m (DaysInMonth y m)"
    using MakeDay_next[OF m, of y 0] by (simp add: md)
  have e2': "day_exists z (MakeDay y m (DaysInMonth y m))" using e2 by (simp add: md)
  then have e2'': "day_exists z (MakeDay y (m + 1) 0)" by (simp add: last)
  have "getDate z (day_start z (MakeDay y m (DaysInMonth y m))) = Some (DaysInMonth y m)"
    using DaysInMonth_range[of y m] by (intro day_start_fields(3)[OF m _ _ e2']) simp_all
  then show "getDate z (new_Date z (Some y) (Some (m + 1)) (Some 0)) = Some (DaysInMonth y m)"
    by (simp add: new_Date_day[OF y2 e2''] last)
qed

lemma days_existD:
  assumes "days_exist z a b"
  shows "a \<le> n \<Longrightarrow> n \<le> b \<Longrightarrow> day_exists z n"
    and "a \<le> n \<Longrightarrow> n < b \<Longrightarrow>
      UTC z (MakeDate n (MakeTime 0 0 0 0)) < UTC z (MakeDate (n + 1) (MakeTime 0 0 0 0))"
  using assms by (simp_all add: days_exist_def list_all_iff)

lemma days_in_order:
  assumes e: "days_exist z a b" and i: "a \<le> i" and ij: "i < j" and j: "j \<le> b"
  shows "js_lt (day_start z i) (day_start z j)"
proof -
  have "j \<le> b \<longrightarrow> UTC z (MakeDate i (MakeTime 0 0 0 0)) < UTC z (MakeDate j (MakeTime 0 0 0 0))"
    using ij
  proof (induction j rule: int_gr_induct)
    case base
    show ?case using days_existD(2)[OF e, of i] i by simp
  next
    case (step k)
    show ?case
    proof
      assume "k + 1 \<le> b"
      then have "UTC z (MakeDate k (MakeTime 0 0 0 0)) < UTC z (MakeDate (k + 1) (MakeTime 0 0 0 0))"
        using days_existD(2)[OF e, of k] i step.hyps by simp
      moreover have "UTC z (MakeDate i (MakeTime 0 0 0 0)) < UTC z (MakeDate k (MakeTime 0 0 0 0))"
        using step.IH \<open>k + 1 \<le> b\<close> by simp
      ultimately show "UTC z (MakeDate i (MakeTime 0 0 0 0)) < UTC z (MakeDate (k + 1) (MakeTime 0 0 0 0))"
        by simp
    qed
  qed
  with j show ?thesis by (simp add: js_lt_def day_start_def)
qed

text \<open>
  The grid of a date of year \<open>y\<close> and month \<open>m\<close> when its 42 days exist in the zone: cell
  \<open>i\<close> is the start of day \<open>first_day y m - first_weekday y m + i\<close>.
\<close>

lemma getDaysInMonth_grid:
  assumes yr: "getFullYear z d = Some y" and mo: "getMonth z d = Some m"
    and y2: "y < 0 \<or> 99 < y"
    and ex: "days_exist z (first_day y m - first_weekday y m)
               (first_day y m - first_weekday y m + 41)"
  shows "getDaysInMonth z d =
     map (\<lambda>i. \<lparr>date = day_start z (first_day y m - first_weekday y m + i),
               isCurrentMonth = False\<rparr>) [0..first_weekday y m - 1] @
     map (\<lambda>i. \<lparr>date = day_start z (first_day y m - first_weekday y m + i),
               isCurrentMonth = True\<rparr>)
       [first_weekday y m..first_weekday y m + DaysInMonth y m - 1] @
     map (\<lambda>i. \<lparr>date = day_start z (first_day y m - first_weekday y m + i),
               isCurrentMonth = False\<rparr>) [first_weekday y m + DaysInMonth y m..41]"
proof -
  define D1 where "D1 = first_day y m"
  define w where "w = first_weekday y m"
  define n where "n = DaysInMonth y m"
  note m = getMonth_range[OF mo]
  have w: "0 \<le> w" "w \<le> 6" using first_weekday_range by (simp_all add: w_def)
  have n: "28 \<le> n" "n \<le> 31" using DaysInMonth_range by (simp_all add: n_def)
  have e: "day_exists z (D1 - w + i)" if "0 \<le> i" "i \<le> 41" for i
    using days_existD(1)[OF ex, of "D1 - w + i"] that by (simp add: D1_def w_def)
  have md: "MakeDay y m k = D1 + k - 1" for k
    using MakeDay_add[of y m 1 "k - 1"] by (simp add: D1_def first_day_def)
  have md1: "MakeDay y (m + 1) k = D1 + n + k - 1" for k
    using MakeDay_next[OF m, of y k] by (simp add: md n_def)
  have "day_exists z (first_day y m)" "day_exists z (first_day y m + DaysInMonth y m - 1)"
    using e[of w] e[of "w + n - 1"] w n by (simp_all add: D1_def n_def add_diff_eq)
  note ends = month_ends[OF mo y2 this]
  have nd: "new_Date z (Some y) (Some m) (Some (i - w + 1)) = day_start z (D1 - w + i)"
    if "0 \<le> i" "i \<le> 41" for i
  proof -
    have k: "MakeDay y m (i - w + 1) = D1 - w + i" by (simp add: md)
    show ?thesis using new_Date_day[OF y2, of z m "i - w + 1"] e[OF that] by (simp only: k)
  qed
  have nd1: "new_Date z (Some y) (Some (m + 1)) (Some (i - w - n + 1)) = day_start z (D1 - w + i)"
    if "0 \<le> i" "i \<le> 41" for i
  proof -
    have k: "MakeDay y (m + 1) (i - w - n + 1) = D1 - w + i" by (simp add: md1)
    show ?thesis
      using new_Date_day[OF y2, of z "m + 1" "i - w - n + 1"] e[OF that] by (simp only: k)
  qed
  have "getDaysInMonth z d =
     map (\<lambda>i. \<lparr>date = new_Date z (Some y) (Some m) (Some (i - w + 1)),
               isCurrentMonth = False\<rparr>) [0..w - 1] @
     map (\<lambda>i. \<lparr>date = new_Date z (Some y) (Some m) (Some (i - w + 1)),
               isCurrentMonth = True\<rparr>) [w..w + n - 1] @
     map (\<lambda>i. \<lparr>date = new_Date z (Some y) (Some (m + 1)) (Some (i - w - n + 1)),
               isCurrentMonth = False\<rparr>) [w + n..41]"
    using grid_shape(1)[OF yr mo ends] by (simp add: w_def n_def)
  also have "\<dots> =
     map (\<lambda>i. \<lparr>date = day_start z (D1 - w + i), isCurrentMonth = False\<rparr>) [0..w - 1] @
     map (\<lambda>i. \<lparr>date = day_start z (D1 - w + i), isCurrentMonth = True\<rparr>) [w..w + n - 1] @
     map (\<lambda>i. \<lparr>date = day_start z (D1 - w + i), isCurrentMonth = False\<rparr>) [w + n..41]"
    using w n by (auto simp: nd nd1)
  finally show ?thesis by (simp add: D1_def w_def n_def)
qed

lemma grid_dates:
  assumes yr: "getFullYear z d = Some y" and mo: "getMonth z d = Some m"
    and y2: "y < 0 \<or> 99 < y"
    and ex: "days_exist z (first_day y m - first_weekday y m)
               (first_day y m - first_weekday y m + 41)"
  shows "map date (getDaysInMonth z d) =
     map (\<lambda>i. day_start z (first_day y m - first_weekday y m + i)) [0..41]"
proof -
  have s: "[0..41] = [0..first_weekday y m - 1] @
      [first_weekday y m..first_weekday y m + DaysInMonth y m - 1] @
      [first_weekday y m + DaysInMonth y m..41]"
    using first_weekday_range[of y m] DaysInMonth_range[of y m] by (intro upto_three) simp_all
  show ?thesis
    unfolding getDaysInMonth_grid[OF assms] s by (simp add: o_def)
qed

lemma grid_flags:
  assumes yr: "getFullYear z d = Some y" and mo: "getMonth z d = Some m"
    and y2: "y < 0 \<or> 99 < y"
    and ex: "days_exist z (first_day y m - first_weekday y m)
               (first_day y m - first_weekday y m + 41)"
  shows "map isCurrentMonth (getDaysInMonth z d) =
     map (\<lambda>i. first_weekday y m \<le> i \<and> i < first_weekday y m + DaysInMonth y m) [0..41]"
proof -
  have s: "[0..41] = [0..first_weekday y m - 1] @
      [first_weekday y m..first_weekday y m + DaysInMonth y m - 1] @
      [first_weekday y m + DaysInMonth y m..41]"
    using first_weekday_range[of y m] DaysInMonth_range[of y m] by (intro upto_three) simp_all
  show ?thesis
    unfolding getDaysInMonth_grid[OF assms] s by (auto simp: o_def)
qed

lemma grid_current:
  assumes yr: "getFullYear z d = Some y" and mo: "getMonth z d = Some m"
    and y2: "y < 0 \<or> 99 < y"
    and ex: "days_exist z (first_day y m - first_weekday y m)
               (first_day y m - first_weekday y m + 41)"
  shows "filter isCurrentMonth (getDaysInMonth z d) =
     map (\<lambda>k. \<lparr>date = day_start z (MakeDay y m k), isCurrentMonth = True\<rparr>)
       [1..DaysInMonth y m]"
proof -
  have md: "MakeDay y m k = first_day y m + k - 1" for k
    using MakeDay_add[of y m 1 "k - 1"] by (simp add: first_day_def)
  have "filter isCurrentMonth (getDaysInMonth z d) =
     map (\<lambda>i. \<lparr>date = day_start z (first_day y m - first_weekday y m + i),
               isCurrentMonth = True\<rparr>)
       [first_weekday y m..first_weekday y m + DaysInMonth y m - 1]"
    unfolding getDaysInMonth_grid[OF assms] by (simp add: filter_map o_def)
  also have "\<dots> = map (\<lambda>k. \<lparr>date = day_start z (MakeDay y m k), isCurrentMonth = True\<rparr>)
       [1..DaysInMonth y m]"
    using map_upto_shift[of "\<lambda>k. \<lparr>date = day_start z (MakeDay y m k), isCurrentMonth = True\<rparr>"
        1 "DaysInMonth y m" "first_weekday y m - 1"]
    by (simp add: md algebra_simps)
  finally show ?thesis .
qed

lemma march_2024: "first_weekday 2024 2 = 5" "DaysInMonth 2024 2 = 31"
  by (simp_all add: first_weekday_def first_day_def MakeDay_def DayFromYear_def DaysInYear_def
      DayFromMonth_def DaysInMonth_def)

text \<open>
  In a zone with one offset of at most 24 hours every day within 99999999 days of
  1970-01-01 exists, and these days exist in order.
\<close>

lemma day_exists_fixed:
  assumes "\<bar>tza\<bar> \<le> msPerDay" "\<bar>n\<bar> \<le> 99999999"
  shows "day_exists (fixed_zone tza) n"
  using assms
  by (simp add: day_exists_def Let_def fixed_zone_def UTC_def LocalTime_def MakeDate_def
      MakeTime_def Day_def msPerDay_def)

lemma days_exist_fixed:
  assumes "\<bar>tza\<bar> \<le> msPerDay" "- 99999999 \<le> a" "b \<le> 99999999"
  shows "days_exist (fixed_zone tza) a b"
proof -
  have "day_exists (fixed_zone tza) n" if "a \<le> n" "n \<le> b" for n
    using assms that by (intro day_exists_fixed) simp_all
  moreover have "UTC (fixed_zone tza) (MakeDate n (MakeTime 0 0 0 0))
      < UTC (fixed_zone tza) (MakeDate (n + 1) (MakeTime 0 0 0 0))" for n
    by (simp add: UTC_def fixed_zone_def MakeDate_def msPerDay_def)
  ultimately show ?thesis by (simp add: days_exist_def list_all_iff)
qed

subsection \<open>Consecutive dates\<close>

text \<open>
  Claim C2, amended. Let the date given to \<open>getDaysInMonth\<close> be of year \<open>y\<close> and
  month \<open>m\<close>, with \<open>y\<close> not from 0 to 99, and let the 42 days that begin
  \<open>first_weekday y m\<close> days before the first of the month exist in the zone, in order
  (\<open>days_exist\<close>: for each of them the Date constructor makes a valid Date that lies on
  that day, earlier than the Date of the next day). Then the cells are the Dates of these 42
  days, one after the other: their local calendar days are consecutive; every cell is
  earlier than the cells after it; the cells of the current month are those from the first
  of the month on, as many as the month has days; and they are the days 1, 2, ... of month
  \<open>m\<close> of year \<open>y\<close>, in order. So the cells before them are the days just before the
  first of the month and the cells after them are the days just after its last day. The
  zone may change its offset within the grid, as a zone with daylight saving does.
\<close>

theorem getDaysInMonth_consecutive:
  assumes yr: "getFullYear z d = Some y" and mo: "getMonth z d = Some m"
    and y2: "y < 0 \<or> 99 < y"
    and ex: "days_exist z (first_day y m - first_weekday y m)
               (first_day y m - first_weekday y m + 41)"
  shows "map date (getDaysInMonth z d)
           = map (\<lambda>i. day_start z (first_day y m - first_weekday y m + i)) [0..41]
     \<and> map (\<lambda>c. local_day z (date c)) (getDaysInMonth z d)
           = map (\<lambda>i. Some (first_day y m - first_weekday y m + i)) [0..41]
     \<and> sorted_wrt (\<lambda>a b. js_lt (date a) (date b)) (getDaysInMonth z d)
     \<and> map isCurrentMonth (getDaysInMonth z d)
           = map (\<lambda>i. first_weekday y m \<le> i \<and> i < first_weekday y m + DaysInMonth y m) [0..41]
     \<and> map (\<lambda>c. (getFullYear z (date c), getMonth z (date c), getDate z (date c)))
           (filter isCurrentMonth (getDaysInMonth z d))
           = map (\<lambda>k. (Some y, Some m, Some k)) [1..DaysInMonth y m]"
proof -
  define a where "a = first_day y m - first_weekday y m"
  note m = getMonth_range[OF mo]
  note ex' = ex[folded a_def]
  have dates: "map date (getDaysInMonth z d) = map (\<lambda>i. day_start z (a + i)) [0..41]"
    using grid_dates[OF assms] by (simp add: a_def)
  have e: "day_exists z (a + i)" if "0 \<le> i" "i \<le> 41" for i
    using days_existD(1)[OF ex', of "a + i"] that by simp
  have "map (local_day z) (map date (getDaysInMonth z d)) = map (\<lambda>i. Some (a + i)) [0..41]"
    unfolding dates by (simp add: day_start_day(1)[OF e])
  then have days: "map (\<lambda>c. local_day z (date c)) (getDaysInMonth z d)
      = map (\<lambda>i. Some (a + i)) [0..41]"
    by (simp add: o_def)
  have "sorted_wrt (\<lambda>i j. js_lt (day_start z (a + i)) (day_start z (a + j))) [0..41]"
  proof (rule sorted_wrt_mono_rel[OF _ sorted_wrt_upto])
    fix i j :: int
    assume "i \<in> set [0..41]" "j \<in> set [0..41]" "i < j"
    then show "js_lt (day_start z (a + i)) (day_start z (a + j))"
      by (intro days_in_order[OF ex']) simp_all
  qed
  then have "sorted_wrt js_lt (map date (getDaysInMonth z d))"
    unfolding dates by (simp add: sorted_wrt_map)
  then have sorted: "sorted_wrt (\<lambda>a b. js_lt (date a) (date b)) (getDaysInMonth z d)"
    by (simp add: sorted_wrt_map)
  have md: "MakeDay y m k = a + (first_weekday y m + k - 1)" for k
    using MakeDay_add[of y m 1 "k - 1"] by (simp add: first_day_def a_def)
  have ek: "day_exists z (MakeDay y m k)" if "1 \<le> k" "k \<le> DaysInMonth y m" for k
    unfolding md using that first_weekday_range[of y m] DaysInMonth_range[of y m]
    by (intro e) simp_all
  have "map (\<lambda>c. (getFullYear z (date c), getMonth z (date c), getDate z (date c)))
           (filter isCurrentMonth (getDaysInMonth z d))
      = map (\<lambda>k. (Some y, Some m, Some k)) [1..DaysInMonth y m]"
    unfolding grid_current[OF assms] by (simp add: o_def day_start_fields[OF m _ _ ek])
  with dates days sorted grid_flags[OF assms] show ?thesis by (simp add: a_def)
qed

text \<open>
  March 2024 in Central European Time, for a date in the early afternoon of the 8th. The
  change to daylight saving on 31 March lies in the grid: the first cell is 25 February
  00:00 at one hour east of UTC, the last cell is 6 April 00:00 at two hours east of UTC.
\<close>

theorem getDaysInMonth_consecutive_witness:
  "(map date (getDaysInMonth berlin_2024 (Some 1709899200000))
           = map (\<lambda>i. day_start berlin_2024 (first_day 2024 2 - first_weekday 2024 2 + i)) [0..41]
     \<and> map (\<lambda>c. local_day berlin_2024 (date c)) (getDaysInMonth berlin_2024 (Some 1709899200000))
           = map (\<lambda>i. Some (first_day 2024 2 - first_weekday 2024 2 + i)) [0..41]
     \<and> sorted_wrt (\<lambda>a b. js_lt (date a) (date b)) (getDaysInMonth berlin_2024 (Some 1709899200000))
     \<and> map isCurrentMonth (getDaysInMonth berlin_2024 (Some 1709899200000))
           = map (\<lambda>i. first_weekday 2024 2 \<le> i \<and> i < first_weekday 2024 2 + DaysInMonth 2024 2) [0..41]
     \<and> map (\<lambda>c. (getFullYear berlin_2024 (date c), getMonth berlin_2024 (date c),
                  getDate berlin_2024 (date c)))
           (filter isCurrentMonth (getDaysInMonth berlin_2024 (Some 1709899200000)))
           = map (\<lambda>k. (Some 2024, Some 2, Some k)) [1..DaysInMonth 2024 2])
   \<and> date (getDaysInMonth berlin_2024 (Some 1709899200000) ! 0) = Some 1708815600000
   \<and> date (getDaysInMonth berlin_2024 (Some 1709899200000) ! 41) = Some 1712354400000"
proof -
  have y: "getFullYear berlin_2024 (Some 1709899200000) = Some 2024" by code_simp
  have m: "getMonth berlin_2024 (Some 1709899200000) = Some 2" by code_simp
  have e: "days_exist berlin_2024 (first_day 2024 2 - first_weekday 2024 2)
      (first_day 2024 2 - first_weekday 2024 2 + 41)"
    by code_simp
  have c: "date (getDaysInMonth berlin_2024 (Some 1709899200000) ! 0) = Some 1708815600000
     \<and> date (getDaysInMonth berlin_2024 (Some 1709899200000) ! 41) = Some 1712354400000"
    by code_simp
  have "2024 < (0::int) \<or> (99::int) < 2024" by simp
  from getDaysInMonth_consecutive[OF y m this e] c show ?thesis by (rule conjI)
qed

text \<open>
  Claim C2 as it is stated, for every year and month, fails. For a date of January of the
  year 50 the Date constructor reads the year as 1950: the first cell belongs to the
  current month and is 1950-01-01. For the last month a Date can hold, September 275760,
  the cells from the second on are Invalid Dates. In Pacific/Apia, for a date of December
  2011, the cell of the 30th, a day that Samoa skipped, and the cell of the 31st are the
  same Date, 31 December 00:00.
\<close>

theorem getDaysInMonth_consecutive_counterexample:
  "getFullYear (fixed_zone 0) (Some (- 60587620200000)) = Some 50
   \<and> getMonth (fixed_zone 0) (Some (- 60587620200000)) = Some 0
   \<and> isCurrentMonth (getDaysInMonth (fixed_zone 0) (Some (- 60587620200000)) ! 0)
   \<and> toISOString (date (getDaysInMonth (fixed_zone 0) (Some (- 60587620200000)) ! 0))
       = Inr ''1950-01-01T00:00:00.000Z''
   \<and> getFullYear (fixed_zone 0) (Some 8640000000000000) = Some 275760
   \<and> getMonth (fixed_zone 0) (Some 8640000000000000) = Some 8
   \<and> date (getDaysInMonth (fixed_zone 0) (Some 8640000000000000) ! 1) = None
   \<and> getFullYear apia_2011 (Some 1323907200000) = Some 2011
   \<and> getMonth apia_2011 (Some 1323907200000) = Some 11
   \<and> date (getDaysInMonth apia_2011 (Some 1323907200000) ! 33) = Some 1325239200000
   \<and> date (getDaysInMonth apia_2011 (Some 1323907200000) ! 34) = Some 1325239200000
   \<and> getDate apia_2011 (Some 1325239200000) = Some 31"
  by code_simp

subsection \<open>Counts\<close>

text \<open>
  Claim C3, amended. Let the date given to \<open>getDaysInMonth\<close> be of year \<open>y\<close> and
  month \<open>m\<close>, with \<open>y\<close> not from 0 to 99, and let the first and the last day of the
  month exist in the zone (\<open>day_exists\<close>: the Date constructor makes a valid Date that lies
  on that day). Then the cells with \<open>isCurrentMonth\<close> are as many as the month has days
  (\<open>DaysInMonth\<close>: 28, 29, 30 or 31, 29 for February in a leap year); the cells before
  the first of them are as many as the weekday of the first of the month, which is what
  \<open>getDay\<close> returns for it (0 for a Sunday); the cells after the last of them are the
  rest of the 42. For March 2024 these are 5 leading cells, 31 cells of the month and 6
  trailing cells.
\<close>

theorem getDaysInMonth_counts:
  assumes yr: "getFullYear z d = Some y" and mo: "getMonth z d = Some m"
    and y2: "y < 0 \<or> 99 < y"
    and e1: "day_exists z (first_day y m)"
    and e2: "day_exists z (first_day y m + DaysInMonth y m - 1)"
  shows "length (filter isCurrentMonth (getDaysInMonth z d)) = nat (DaysInMonth y m)
     \<and> length (takeWhile (\<lambda>c. \<not> isCurrentMonth c) (getDaysInMonth z d)) = nat (first_weekday y m)
     \<and> getDay z (day_start z (first_day y m)) = Some (first_weekday y m)
     \<and> length (takeWhile (\<lambda>c. \<not> isCurrentMonth c) (rev (getDaysInMonth z d)))
         = nat (42 - first_weekday y m - DaysInMonth y m)
     \<and> (y = 2024 \<and> m = 2 \<longrightarrow>
          length (takeWhile (\<lambda>c. \<not> isCurrentMonth c) (getDaysInMonth z d)) = 5
          \<and> length (filter isCurrentMonth (getDaysInMonth z d)) = 31
          \<and> length (takeWhile (\<lambda>c. \<not> isCurrentMonth c) (rev (getDaysInMonth z d))) = 6)"
proof -
  note ends = month_ends[OF mo y2 e1 e2]
  note shape = grid_shape[OF yr mo ends]
  note counts = shape_counts[OF shape]
  from counts march_2024 day_start_day(2)[OF e1] show ?thesis
    by (auto simp: first_weekday_def)
qed

text \<open>
  March 2024 in Central European Time: 5 leading cells, 31 cells of the month, 6 trailing
  cells.
\<close>

theorem getDaysInMonth_counts_witness:
  "length (takeWhile (\<lambda>c. \<not> isCurrentMonth c) (getDaysInMonth berlin_2024 (Some 1709899200000))) = 5
   \<and> length (filter isCurrentMonth (getDaysInMonth berlin_2024 (Some 1709899200000))) = 31
   \<and> length (takeWhile (\<lambda>c. \<not> isCurrentMonth c) (rev (getDaysInMonth berlin_2024 (Some 1709899200000)))) = 6"
proof -
  have y: "getFullYear berlin_2024 (Some 1709899200000) = Some 2024" by code_simp
  have m: "getMonth berlin_2024 (Some 1709899200000) = Some 2" by code_simp
  have e1: "day_exists berlin_2024 (first_day 2024 2)" by code_simp
  have e2: "day_exists berlin_2024 (first_day 2024 2 + DaysInMonth 2024 2 - 1)" by code_simp
  have "2024 < (0::int) \<or> (99::int) < 2024" by simp
  from getDaysInMonth_counts[OF y m this e1 e2] show ?thesis by simp
qed

text \<open>
  Claim C3 as it is stated, for every year and month, fails. February of the year 0 has 29
  days (the Date object has a 29th of that month), and the grid of a date of that month has
  28 cells of the current month, those of February 1900. January of the year 50 begins on
  weekday 6, and the grid of a date of that month has no leading cell, as January 1950
  begins on a Sunday. For September 275760, the last month a Date can hold, \<open>lastDay\<close> is
  an Invalid Date and no cell belongs to the current month. In Pacific/Kiritimati, for a
  date of December 1994, \<open>lastDay\<close> is 31 December, a day that the Line Islands skipped,
  and the Date made for it is 1 January 1995: one cell belongs to the current month.
\<close>

theorem getDaysInMonth_counts_counterexample:
  "getFullYear (fixed_zone 0) (Some (- 62163763200000)) = Some 0
   \<and> getMonth (fixed_zone 0) (Some (- 62163763200000)) = Some 1
   \<and> DaysInMonth 0 1 = 29
   \<and> toISOString (Some (- 62162121600000)) = Inr ''0000-02-29T00:00:00.000Z''
   \<and> length (filter isCurrentMonth (getDaysInMonth (fixed_zone 0) (Some (- 62163763200000)))) = 28
   \<and> getFullYear (fixed_zone 0) (Some (- 60587620200000)) = Some 50
   \<and> getMonth (fixed_zone 0) (Some (- 60587620200000)) = Some 0
   \<and> getDay (fixed_zone 0) (day_start (fixed_zone 0) (first_day 50 0)) = Some 6
   \<and> length (takeWhile (\<lambda>c. \<not> isCurrentMonth c)
        (getDaysInMonth (fixed_zone 0) (Some (- 60587620200000)))) = 0
   \<and> getFullYear (fixed_zone 0) (Some 8640000000000000) = Some 275760
   \<and> getMonth (fixed_zone 0) (Some 8640000000000000) = Some 8
   \<and> DaysInMonth 275760 8 = 30
   \<and> length (filter isCurrentMonth (getDaysInMonth (fixed_zone 0) (Some 8640000000000000))) = 0
   \<and> getFullYear kiritimati_1994 (Some 787449600000) = Some 1994
   \<and> getMonth kiritimati_1994 (Some 787449600000) = Some 11
   \<and> DaysInMonth 1994 11 = 31
   \<and> new_Date kiritimati_1994 (Some 1994) (Some 12) (Some 0) = Some 788868000000
   \<and> toISOString (Some (788868000000 + 50400000)) = Inr ''1995-01-01T00:00:00.000Z''
   \<and> getDate kiritimati_1994 (Some 788868000000) = Some 1
   \<and> length (filter isCurrentMonth (getDaysInMonth kiritimati_1994 (Some 787449600000))) = 1"
  by code_simp

section \<open>Tasks of a day\<close>

lemma digit_not_T: "digit n \<noteq> CHR ''T''"
proof -
  have "nat (n mod 10) < 10" by simp
  then have "nat (n mod 10) \<in> set [0..<10]" by simp
  also have "[0..<10] = [0,1,2,3,4,5,6,7,8,9::nat]" by code_simp
  finally show ?thesis by (auto simp: digit_def)
qed

lemma pad_no_T: "CHR ''T'' \<notin> set (pad w n)"
  by (induction w n rule: pad.induct) (simp_all add: digit_not_T[symmetric])

lemma year_string_no_T: "CHR ''T'' \<notin> set (year_string y)"
  by (simp add: year_string_def pad_no_T del: pad.simps)

lemma split_T_0_prefix: "CHR ''T'' \<notin> set a \<Longrightarrow> split_T_0 (a @ CHR ''T'' # rest) = a"
  unfolding split_T_0_def by (rule takeWhile_prefix) auto

lemma dateString_of: "toISOString (Some v) = Inr str \<Longrightarrow> split_T_0 str = day_key (Day v)"
proof -
  assume a: "toISOString (Some v) = Inr str"
  have f: "YearFromTime (Day v * msPerDay) = YearFromTime v"
    "MonthFromTime (Day v * msPerDay) = MonthFromTime v"
    "DateFromTime (Day v * msPerDay) = DateFromTime v"
    by (rule fields_by_day; simp add: Day_midnight)+
  have n: "CHR ''T'' \<notin> set (year_string (YearFromTime v) @ ''-'' @ pad 2 (MonthFromTime v + 1) @ ''-'' @
         pad 2 (DateFromTime v))"
    using pad_no_T[of 2] year_string_no_T by (simp del: pad.simps)
  have "str = (year_string (YearFromTime v) @ ''-'' @ pad 2 (MonthFromTime v + 1) @ ''-'' @
         pad 2 (DateFromTime v)) @ CHR ''T'' # (pad 2 (HourFromTime v) @ '':'' @
               pad 2 (MinFromTime v) @ '':'' @ pad 2 (SecFromTime v) @ ''.'' @
               pad 3 (msFromTime v) @ ''Z'')"
    using a by (simp add: toISOString_def del: pad.simps)
  then show ?thesis
    using split_T_0_prefix[OF n] by (simp add: day_key_def Let_def f del: pad.simps)
qed

text \<open>
  What \<open>getTasksForDate\<close> returns for a valid Date: the tasks whose due date is the
  key of the UTC day of its time value, in the order of the task list.
\<close>

lemma getTasksForDate_day_key:
  "getTasksForDate ts (Some v) = Inr (filter (\<lambda>task. due_date task = Some (day_key (Day v))) ts)"
proof -
  obtain str where s: "toISOString (Some v) = Inr str" by (simp add: toISOString_def)
  show ?thesis using dateString_of[OF s] by (simp add: getTasksForDate_def s)
qed

lemma Day_day_start:
  assumes "- msPerDay < local_offset z (MakeDate n (MakeTime 0 0 0 0))"
    and "local_offset z (MakeDate n (MakeTime 0 0 0 0)) \<le> msPerDay"
  shows "Day (UTC z (MakeDate n (MakeTime 0 0 0 0)))
     = (if 0 < local_offset z (MakeDate n (MakeTime 0 0 0 0)) then n - 1 else n)"
proof -
  define off where "off = local_offset z (MakeDate n (MakeTime 0 0 0 0))"
  have u: "UTC z (MakeDate n (MakeTime 0 0 0 0)) = n * msPerDay - off"
    by (simp add: UTC_def off_def MakeDate_def MakeTime_def)
  show ?thesis
  proof (cases "0 < off")
    case True
    have "Day (MakeDate (n - 1) (msPerDay - off)) = n - 1"
      using True assms by (intro Day_MakeDate) (simp_all add: off_def)
    moreover have "MakeDate (n - 1) (msPerDay - off) = n * msPerDay - off"
      by (simp add: MakeDate_def algebra_simps)
    ultimately show ?thesis using True by (simp add: u off_def[symmetric])
  next
    case False
    have "Day (MakeDate n (- off)) = n"
      using False assms by (intro Day_MakeDate) (simp_all add: off_def)
    moreover have "MakeDate n (- off) = n * msPerDay - off"
      by (simp add: MakeDate_def)
    ultimately show ?thesis using False by (simp add: u off_def[symmetric])
  qed
qed

text \<open>
  For a cell of the grid, the start of day \<open>n\<close>: where the zone is at UTC or west of it
  at that time, the key is that of day \<open>n\<close>; where it is east of UTC, the key is that of
  the day before.
\<close>

lemma getTasksForDate_cell:
  assumes "- msPerDay < local_offset z (MakeDate n (MakeTime 0 0 0 0))"
    and "local_offset z (MakeDate n (MakeTime 0 0 0 0)) \<le> msPerDay"
  shows "getTasksForDate ts (day_start z n) =
     Inr (filter (\<lambda>task. due_date task
        = Some (day_key (if 0 < local_offset z (MakeDate n (MakeTime 0 0 0 0)) then n - 1 else n))) ts)"
  unfolding day_start_def getTasksForDate_day_key Day_day_start[OF assms] ..

text \<open>
  A task of the result is a task of the list and has a due date.
\<close>

lemma getTasksForDate_undated:
  "getTasksForDate ts d = Inr dayTasks \<Longrightarrow> task \<in> set dayTasks \<Longrightarrow> due_date task \<noteq> None \<and> task \<in> set ts"
  by (auto simp: getTasksForDate_def Let_def split: sum.splits)

text \<open>
  Claim C4 fails in every zone east of UTC. The cell dates are local midnights and
  \<open>toISOString\<close> prints UTC, so the key of a cell is the day before the cell's date.
  One hour east of UTC, with March 2024 displayed: cell 19 is 15 March 2024, its key is
  \<open>2024-03-14\<close>, and a task due on \<open>2024-03-15\<close> is not among its tasks; it is among
  the tasks of cell 20, which is 16 March.
\<close>

theorem getTasksForDate_utc_key:
  "getFullYear (fixed_zone 3600000) (date (getDaysInMonth (fixed_zone 3600000) (Some 1709899200000) ! 19)) = Some 2024
   \<and> getMonth (fixed_zone 3600000) (date (getDaysInMonth (fixed_zone 3600000) (Some 1709899200000) ! 19)) = Some 2
   \<and> getDate (fixed_zone 3600000) (date (getDaysInMonth (fixed_zone 3600000) (Some 1709899200000) ! 19)) = Some 15
   \<and> toISOString (date (getDaysInMonth (fixed_zone 3600000) (Some 1709899200000) ! 19))
       = Inr ''2024-03-14T23:00:00.000Z''
   \<and> getTasksForDate [report] (date (getDaysInMonth (fixed_zone 3600000) (Some 1709899200000) ! 19)) = Inr []
   \<and> getDate (fixed_zone 3600000) (date (getDaysInMonth (fixed_zone 3600000) (Some 1709899200000) ! 20)) = Some 16
   \<and> getTasksForDate [report] (date (getDaysInMonth (fixed_zone 3600000) (Some 1709899200000) ! 20)) = Inr [report]"
  by code_simp

section \<open>Month navigation\<close>

text \<open>
  When the day of the month of \<open>currentDate\<close> exists in the month navigated to and the
  zone puts the new local time on the day it names, \<open>navigateMonth\<close> moves to that month
  and keeps the day; the year changes when the month number leaves 0 to 11.
\<close>

lemma navigateMonth_day_exists:
  assumes c: "currentDate s = Some t0"
    and yr: "getFullYear z (currentDate s) = Some y"
    and mo: "getMonth z (currentDate s) = Some m"
    and da: "getDate z (currentDate s) = Some dt"
    and ex: "dt \<le> DaysInMonth (y + (m + direction) div 12) ((m + direction) mod 12)"
    and v: "\<bar>UTC z (MakeDate (MakeDay y (m + direction) dt) (TimeWithinDay (LocalTime z t0)))\<bar>
              \<le> 8640000000000000"
    and l: "Day (LocalTime z (UTC z (MakeDate (MakeDay y (m + direction) dt)
              (TimeWithinDay (LocalTime z t0))))) = MakeDay y (m + direction) dt"
  shows "getFullYear z (currentDate (navigateMonth z direction s)) = Some (y + (m + direction) div 12)"
    and "getMonth z (currentDate (navigateMonth z direction s)) = Some ((m + direction) mod 12)"
    and "getDate z (currentDate (navigateMonth z direction s)) = Some dt"
proof -
  define y' where "y' = y + (m + direction) div 12"
  define mn where "mn = (m + direction) mod 12"
  define t where "t = LocalTime z t0"
  have f: "YearFromTime t = y" "MonthFromTime t = m" "DateFromTime t = dt"
    using yr mo da by (simp_all add: c getFullYear_def getMonth_def getDate_def t_def)
  have mn: "0 \<le> mn" "mn \<le> 11" by (simp_all add: mn_def)
  have dt: "1 \<le> dt" "dt \<le> DaysInMonth y' mn"
    using DateFromTime_range(1)[of t] ex by (simp_all add: f y'_def mn_def)
  have D: "MakeDay y (m + direction) dt = MakeDay y' mn dt"
    using MakeDay_normal[of y "m + direction" dt] by (simp add: y'_def mn_def)
  define u where "u = UTC z (MakeDate (MakeDay y (m + direction) dt) (TimeWithinDay t))"
  have "getMonth z (Some t0) = Some m" using mo by (simp add: c)
  then have n: "currentDate (navigateMonth z direction s) = Some u"
    using v by (simp add: navigateMonth_def Let_def c js_add_def setMonth_def t_def[symmetric] f
        u_def[symmetric] TimeClip_def)
  have "Day (LocalTime z u) = MakeDay y' mn dt"
    using l by (simp add: u_def t_def D)
  from fields_of_MakeDay[OF mn dt this]
  show "getFullYear z (currentDate (navigateMonth z direction s)) = Some (y + (m + direction) div 12)"
    and "getMonth z (currentDate (navigateMonth z direction s)) = Some ((m + direction) mod 12)"
    and "getDate z (currentDate (navigateMonth z direction s)) = Some dt"
    by (simp_all add: n getFullYear_def getMonth_def getDate_def y'_def mn_def)
qed

lemma DayFromYear_limits: "DayFromYear (- 271820) = - 99999744" "DayFromYear 275760 = 99999744"
  by (simp_all add: DayFromYear_def)

text \<open>In a zone with one offset the second condition holds, and the first within the range of Date.\<close>

lemma navigateMonth_fixed_zone:
  assumes yr: "getFullYear (fixed_zone tza) (currentDate s) = Some y"
    and mo: "getMonth (fixed_zone tza) (currentDate s) = Some m"
    and da: "getDate (fixed_zone tza) (currentDate s) = Some dt"
    and tz: "\<bar>tza\<bar> \<le> msPerDay"
    and ex: "dt \<le> DaysInMonth (y + (m + direction) div 12) ((m + direction) mod 12)"
    and lo: "- 271820 \<le> y + (m + direction) div 12"
    and hi: "y + (m + direction) div 12 \<le> 275759"
  shows "getFullYear (fixed_zone tza) (currentDate (navigateMonth (fixed_zone tza) direction s))
           = Some (y + (m + direction) div 12)"
    and "getMonth (fixed_zone tza) (currentDate (navigateMonth (fixed_zone tza) direction s))
           = Some ((m + direction) mod 12)"
    and "getDate (fixed_zone tza) (currentDate (navigateMonth (fixed_zone tza) direction s)) = Some dt"
proof -
  define y' where "y' = y + (m + direction) div 12"
  define mn where "mn = (m + direction) mod 12"
  obtain t0 where c: "currentDate s = Some t0"
    using yr by (cases "currentDate s") (simp_all add: getFullYear_def)
  define t where "t = LocalTime (fixed_zone tza) t0"
  define D where "D = MakeDay y (m + direction) dt"
  have mn: "0 \<le> mn" "mn \<le> 11" by (simp_all add: mn_def)
  have "DateFromTime t = dt" using da by (simp add: c getDate_def t_def)
  then have dt: "1 \<le> dt" "dt \<le> DaysInMonth y' mn"
    using DateFromTime_range(1)[of t] ex by (simp_all add: y'_def mn_def)
  have D: "D = MakeDay y' mn dt"
    using MakeDay_normal[of y "m + direction" dt] by (simp add: D_def y'_def mn_def)
  have "DayFromYear (- 271820) \<le> DayFromYear y'" "DayFromYear (y' + 1) \<le> DayFromYear 275760"
    using lo hi by (intro DayFromYear_mono; simp add: y'_def)+
  moreover have "DayFromYear y' \<le> D" "D < DayFromYear (y' + 1)"
    using DayFromMonth_range[OF mn dt]
    by (simp_all add: D MakeDay_month[OF mn] DayFromYear_step)
  ultimately have r: "- 99999744 \<le> D" "D < 99999744"
    by (simp_all add: DayFromYear_limits)
  have v: "\<bar>UTC (fixed_zone tza) (MakeDate D (TimeWithinDay t))\<bar> \<le> 8640000000000000"
    using r tz TimeWithinDay_range[of t]
    by (simp add: UTC_def fixed_zone_def MakeDate_def msPerDay_def)
  have "LocalTime (fixed_zone tza) (UTC (fixed_zone tza) (MakeDate D (TimeWithinDay t)))
      = MakeDate D (TimeWithinDay t)"
    by (simp add: LocalTime_def UTC_def fixed_zone_def)
  then have l: "Day (LocalTime (fixed_zone tza) (UTC (fixed_zone tza) (MakeDate D (TimeWithinDay t)))) = D"
    using Day_MakeDate[where time = "TimeWithinDay t" and day = D, OF TimeWithinDay_range] by simp
  note r = navigateMonth_day_exists[OF c yr mo da ex v[unfolded D_def t_def] l[unfolded D_def t_def]]
  show "getFullYear (fixed_zone tza) (currentDate (navigateMonth (fixed_zone tza) direction s))
           = Some (y + (m + direction) div 12)"
    and "getMonth (fixed_zone tza) (currentDate (navigateMonth (fixed_zone tza) direction s))
           = Some ((m + direction) mod 12)"
    and "getDate (fixed_zone tza) (currentDate (navigateMonth (fixed_zone tza) direction s)) = Some dt"
    by (rule r)+
qed

lemma getDate_le_31: "getDate z d = Some dt \<Longrightarrow> dt \<le> 31"
  using DateFromTime_range(2) by (cases d) (auto simp: getDate_def)

text \<open>
  December and January have 31 days each, so the step from December to January of the next
  year and the step from January to December of the year before are taken on every day of
  the month.
\<close>

lemma navigateMonth_december:
  assumes "getFullYear (fixed_zone tza) (currentDate s) = Some y"
    and "getMonth (fixed_zone tza) (currentDate s) = Some 11"
    and "\<bar>tza\<bar> \<le> msPerDay" "- 271821 \<le> y" "y \<le> 275758"
  shows "getFullYear (fixed_zone tza) (currentDate (navigateMonth (fixed_zone tza) 1 s)) = Some (y + 1)"
    and "getMonth (fixed_zone tza) (currentDate (navigateMonth (fixed_zone tza) 1 s)) = Some 0"
proof -
  obtain dt where d: "getDate (fixed_zone tza) (currentDate s) = Some dt"
    using assms(1) by (cases "currentDate s") (simp_all add: getFullYear_def getDate_def)
  have e: "dt \<le> DaysInMonth (y + (11 + 1) div 12) ((11 + 1) mod 12)"
    using getDate_le_31[OF d] by (simp add: DaysInMonth_def)
  show "getFullYear (fixed_zone tza) (currentDate (navigateMonth (fixed_zone tza) 1 s)) = Some (y + 1)"
    and "getMonth (fixed_zone tza) (currentDate (navigateMonth (fixed_zone tza) 1 s)) = Some 0"
    using navigateMonth_fixed_zone(1,2)[OF assms(1,2) d assms(3) e] assms(4,5) by simp_all
qed

lemma navigateMonth_january:
  assumes "getFullYear (fixed_zone tza) (currentDate s) = Some y"
    and "getMonth (fixed_zone tza) (currentDate s) = Some 0"
    and "\<bar>tza\<bar> \<le> msPerDay" "- 271819 \<le> y" "y \<le> 275760"
  shows "getFullYear (fixed_zone tza) (currentDate (navigateMonth (fixed_zone tza) (- 1) s)) = Some (y - 1)"
    and "getMonth (fixed_zone tza) (currentDate (navigateMonth (fixed_zone tza) (- 1) s)) = Some 11"
proof -
  obtain dt where d: "getDate (fixed_zone tza) (currentDate s) = Some dt"
    using assms(1) by (cases "currentDate s") (simp_all add: getFullYear_def getDate_def)
  have e: "dt \<le> DaysInMonth (y + (0 + - 1) div 12) ((0 + - 1) mod 12)"
    using getDate_le_31[OF d] by (simp add: DaysInMonth_def)
  show "getFullYear (fixed_zone tza) (currentDate (navigateMonth (fixed_zone tza) (- 1) s)) = Some (y - 1)"
    and "getMonth (fixed_zone tza) (currentDate (navigateMonth (fixed_zone tza) (- 1) s)) = Some 11"
    using navigateMonth_fixed_zone(1,2)[OF assms(1,2) d assms(3) e] assms(4,5) by simp_all
qed

text \<open>
  Claim C5 fails when the day of the month of \<open>currentDate\<close> does not exist in the
  month navigated to: \<open>setMonth\<close> keeps the day, and MakeDay rolls it over into the
  month after. From 31 January 2024 one step forward gives 2 March 2024, and from 31 March
  2024 one step backward gives 2 March 2024 as well (in UTC, at noon).
\<close>

theorem navigateMonth_day_overflow:
  "getFullYear (fixed_zone 0) (Some 1706702400000) = Some 2024
   \<and> getMonth (fixed_zone 0) (Some 1706702400000) = Some 0
   \<and> getDate (fixed_zone 0) (Some 1706702400000) = Some 31
   \<and> currentDate (navigateMonth (fixed_zone 0) 1 (calendar_idle\<lparr>currentDate := Some 1706702400000\<rparr>))
       = Some 1709380800000
   \<and> getMonth (fixed_zone 0) (Some 1709380800000) = Some 2
   \<and> getDate (fixed_zone 0) (Some 1709380800000) = Some 2
   \<and> getMonth (fixed_zone 0) (Some 1711886400000) = Some 2
   \<and> getDate (fixed_zone 0) (Some 1711886400000) = Some 31
   \<and> currentDate (navigateMonth (fixed_zone 0) (- 1) (calendar_idle\<lparr>currentDate := Some 1711886400000\<rparr>))
       = Some 1709380800000"
  by code_simp

section \<open>Creating a task\<close>

lemma trim_Nil_iff: "trim s = [] \<longleftrightarrow> list_all is_white_space s"
proof
  assume "trim s = []"
  then have e: "dropWhile is_white_space (rev (dropWhile is_white_space s)) = []"
    by (simp add: trim_def)
  show "list_all is_white_space s"
  proof (cases "dropWhile is_white_space s")
    case Nil
    then show ?thesis by (simp add: dropWhile_eq_Nil_conv list_all_iff)
  next
    case (Cons x xs)
    then have "\<not> is_white_space x" using hd_dropWhile[of is_white_space s] by simp
    moreover from e Cons have "is_white_space x" by (simp add: dropWhile_eq_Nil_conv)
    ultimately show ?thesis by simp
  qed
next
  assume "list_all is_white_space s"
  then have "dropWhile is_white_space s = []" by (simp add: dropWhile_eq_Nil_conv list_all_iff)
  then show "trim s = []" by (simp only: trim_def rev.simps dropWhile.simps)
qed

text \<open>
  Claim C7. When the title is empty or consists of white space only, \<open>createTask\<close>
  returns at its guard: the state is the one it was called in and no request is sent,
  whatever the description, the priority, the selected date and the server are.
\<close>

theorem createTask_blank_title:
  "list_all is_white_space (title (newTask s)) \<Longrightarrow> createTask z server s = (s, [])"
  by (simp add: createTask_def trim_Nil_iff)

theorem createTask_blank_title_witness:
  "createTask (fixed_zone 0) server_up (modal_open []) = (modal_open [], [])
   \<and> createTask (fixed_zone 3600000) server_up (modal_open [CHR '' '', CHR 0x09]) = (modal_open [CHR '' '', CHR 0x09], [])"
  using createTask_blank_title[of "modal_open []" "fixed_zone 0" server_up]
    createTask_blank_title[of "modal_open [CHR '' '', CHR 0x09]" "fixed_zone 3600000" server_up]
  by (simp add: modal_open_def is_white_space_def)

lemma fetchCalendarTasks_sent:
  "snd (fetchCalendarTasks z server s) =
     [GET_calendar_tasks (js_add (getMonth z (currentDate s)) (Some 1))
        (getFullYear z (currentDate s))]"
  by (simp add: fetchCalendarTasks_def Let_def)

lemma createTask_cases:
  "createTask z server s = (s, []) \<or>
   (\<exists>sd str. selectedDate s = Some sd \<and> toISOString sd = Inr str \<and>
      (post_tasks server (newTask s) (split_T_0 str) = Rejected \<and>
         createTask z server s = (s, [POST_tasks (newTask s) (split_T_0 str)]) \<or>
       (\<exists>created. post_tasks server (newTask s) (split_T_0 str) = Resolved created)))"
  by (auto simp: createTask_def Let_def split: option.splits sum.splits Response.splits)

text \<open>
  Claim C8. When the server rejects the POST request of \<open>createTask\<close>, the state is
  unchanged (the modal stays as it is, the form keeps its fields, the selected date is kept)
  and the POST request is the only request sent: the tasks are not fetched again. A change
  of the state or a fetch of the tasks happens only when the POST request was resolved.
\<close>

theorem createTask_rejected:
  "(selectedDate s = Some sd \<and> toISOString sd = Inr str \<and> trim (title (newTask s)) \<noteq> [] \<and>
      post_tasks server (newTask s) (split_T_0 str) = Rejected
    \<longrightarrow> createTask z server s = (s, [POST_tasks (newTask s) (split_T_0 str)]))
   \<and> (fst (createTask z server s) \<noteq> s \<or>
        (\<exists>month year. GET_calendar_tasks month year \<in> set (snd (createTask z server s)))
    \<longrightarrow> (\<exists>sd str created. selectedDate s = Some sd \<and> toISOString sd = Inr str \<and>
          post_tasks server (newTask s) (split_T_0 str) = Resolved created))"
proof (intro conjI impI)
  assume "selectedDate s = Some sd \<and> toISOString sd = Inr str \<and> trim (title (newTask s)) \<noteq> [] \<and>
      post_tasks server (newTask s) (split_T_0 str) = Rejected"
  then show "createTask z server s = (s, [POST_tasks (newTask s) (split_T_0 str)])"
    by (simp add: createTask_def Let_def)
next
  assume a: "fst (createTask z server s) \<noteq> s \<or>
        (\<exists>month year. GET_calendar_tasks month year \<in> set (snd (createTask z server s)))"
  from createTask_cases[of z server s] a
  show "\<exists>sd str created. selectedDate s = Some sd \<and> toISOString sd = Inr str \<and>
          post_tasks server (newTask s) (split_T_0 str) = Resolved created"
    by auto
qed

lemma toISOString_selected: "toISOString (Some 1710460800000) = Inr ''2024-03-15T00:00:00.000Z''"
  by code_simp

theorem createTask_rejected_witness:
  "createTask (fixed_zone 0) server_down (modal_open ''Write'')
     = (modal_open ''Write'',
        [POST_tasks \<lparr>title = ''Write'', description = ''weekly'', priority = ''high''\<rparr> ''2024-03-15''])
   \<and> fst (createTask (fixed_zone 0) server_up (modal_open ''Write'')) \<noteq> modal_open ''Write''
   \<and> (\<exists>created. post_tasks server_up (newTask (modal_open ''Write'')) ''2024-03-15'' = Resolved created)"
proof -
  have t: "trim ''Write'' \<noteq> []" by (simp add: trim_def is_white_space_def)
  have k: "split_T_0 ''2024-03-15T00:00:00.000Z'' = ''2024-03-15''" by (simp add: split_T_0_def)
  have 1: "createTask (fixed_zone 0) server_down (modal_open ''Write'')
     = (modal_open ''Write'',
        [POST_tasks \<lparr>title = ''Write'', description = ''weekly'', priority = ''high''\<rparr> ''2024-03-15''])"
    using createTask_rejected[of "modal_open ''Write''" "Some 1710460800000"
        "''2024-03-15T00:00:00.000Z''" server_down "fixed_zone 0"] toISOString_selected t k
    by (simp add: modal_open_def server_down_def)
  have 2: "fst (createTask (fixed_zone 0) server_up (modal_open ''Write'')) \<noteq> modal_open ''Write''"
    using toISOString_selected t k
    by (simp add: createTask_def modal_open_def server_up_def fetchCalendarTasks_def Let_def)
  have 3: "\<exists>created. post_tasks server_up (newTask (modal_open ''Write'')) ''2024-03-15'' = Resolved created"
    by (simp add: server_up_def)
  from 1 2 3 show ?thesis by simp
qed

section \<open>Clicks on day cells and the task indicators\<close>

text \<open>
  Claim C10. A click on a cell that does not belong to the displayed month leaves the state
  as it is. A click on a cell of the displayed month selects the date of the cell and opens
  the modal, and a click that opens the modal was on a cell of the displayed month.
\<close>

theorem handleDateClick_other_month:
  "(\<not> isCurrentMonth cell \<longrightarrow> handleDateClick cell s = s)
   \<and> (isCurrentMonth cell \<longrightarrow>
        handleDateClick cell s = s\<lparr>selectedDate := Some (date cell), showTaskModal := True\<rparr>)
   \<and> (showTaskModal (handleDateClick cell s) \<and> \<not> showTaskModal s \<longrightarrow>
        isCurrentMonth cell \<and> selectedDate (handleDateClick cell s) = Some (date cell))"
  by (auto simp: handleDateClick_def)

theorem handleDateClick_other_month_witness:
  "handleDateClick \<lparr>date = Some 1708815600000, isCurrentMonth = False\<rparr> calendar_idle = calendar_idle
   \<and> showTaskModal (handleDateClick \<lparr>date = Some 1710460800000, isCurrentMonth = True\<rparr> calendar_idle)
   \<and> selectedDate (handleDateClick \<lparr>date = Some 1710460800000, isCurrentMonth = True\<rparr> calendar_idle)
       = Some (Some 1710460800000)"
  using handleDateClick_other_month[of "\<lparr>date = Some 1708815600000, isCurrentMonth = False\<rparr>" calendar_idle]
    handleDateClick_other_month[of "\<lparr>date = Some 1710460800000, isCurrentMonth = True\<rparr>" calendar_idle]
  by simp

text \<open>
  Claim C9. Of the tasks of a day cell the first three are rendered and no more; when the
  cell has more than three, the number of the others (the total minus 3) is shown, and when
  it has three or fewer, all are rendered and no number is shown.
\<close>

theorem dayIndicators_at_most_three:
  "getTasksForDate ts (date day) = Inr dayTasks \<Longrightarrow>
   \<exists>v. dayIndicators ts day = Inr v
     \<and> rendered v = take 3 dayTasks
     \<and> length (rendered v) \<le> 3
     \<and> (3 < length dayTasks \<longrightarrow> length (rendered v) = 3 \<and> more_count v = Some (length dayTasks - 3))
     \<and> (length dayTasks \<le> 3 \<longrightarrow> rendered v = dayTasks \<and> more_count v = None)"
  by (simp add: dayIndicators_def taskIndicators_def)

lemma getTasksForDate_five:
  "getTasksForDate [report, undated, report, report, report, report]
     (date \<lparr>date = Some 1710460800000, isCurrentMonth = True\<rparr>)
   = Inr [report, report, report, report, report]"
  by code_simp

theorem dayIndicators_at_most_three_witness:
  "\<exists>v. dayIndicators [report, undated, report, report, report, report]
         \<lparr>date = Some 1710460800000, isCurrentMonth = True\<rparr> = Inr v
     \<and> rendered v = [report, report, report] \<and> more_count v = Some 2"
  using dayIndicators_at_most_three[OF getTasksForDate_five] by auto

section \<open>The dashboard\<close>

text \<open>
  Claim C6. When one of the three requests of the dashboard is rejected, the statistics,
  the recent tasks and the upcoming tasks keep their values; when all three are resolved,
  the three are set to the data of the responses; and one of the three changes only when
  all three requests were resolved.
\<close>

theorem fetchDashboardData_all_or_nothing:
  "(statsResponse = Rejected \<or> recentResponse = Rejected \<or> upcomingResponse = Rejected
      \<longrightarrow> stats (fetchDashboardData statsResponse recentResponse upcomingResponse s) = stats s
        \<and> recentTasks (fetchDashboardData statsResponse recentResponse upcomingResponse s) = recentTasks s
        \<and> upcomingTasks (fetchDashboardData statsResponse recentResponse upcomingResponse s) = upcomingTasks s)
   \<and> (statsResponse = Resolved st \<and> recentResponse = Resolved re \<and> upcomingResponse = Resolved up
      \<longrightarrow> stats (fetchDashboardData statsResponse recentResponse upcomingResponse s) = st
        \<and> recentTasks (fetchDashboardData statsResponse recentResponse upcomingResponse s) = re
        \<and> upcomingTasks (fetchDashboardData statsResponse recentResponse upcomingResponse s) = up)
   \<and> (stats (fetchDashboardData statsResponse recentResponse upcomingResponse s) \<noteq> stats s
        \<or> recentTasks (fetchDashboardData statsResponse recentResponse upcomingResponse s) \<noteq> recentTasks s
        \<or> upcomingTasks (fetchDashboardData statsResponse recentResponse upcomingResponse s) \<noteq> upcomingTasks s
      \<longrightarrow> (\<exists>a b c. statsResponse = Resolved a \<and> recentResponse = Resolved b
            \<and> upcomingResponse = Resolved c))"
  by (auto simp: fetchDashboardData_def Promise_all_def Let_def split: Response.splits)

theorem fetchDashboardData_all_or_nothing_witness:
  "stats (fetchDashboardData (Resolved stats_example) (Resolved [report]) Rejected dashboard_initial)
     = stats dashboard_initial
   \<and> recentTasks (fetchDashboardData (Resolved stats_example) (Resolved [report]) Rejected dashboard_initial)
     = []
   \<and> upcomingTasks (fetchDashboardData (Resolved stats_example) (Resolved [report]) Rejected dashboard_initial)
     = []
   \<and> stats (fetchDashboardData (Resolved stats_example) (Resolved [report]) (Resolved [undated]) dashboard_initial)
     = stats_example
   \<and> recentTasks (fetchDashboardData (Resolved stats_example) (Resolved [report]) (Resolved [undated]) dashboard_initial)
     = [report]
   \<and> upcomingTasks (fetchDashboardData (Resolved stats_example) (Resolved [report]) (Resolved [undated]) dashboard_initial)
     = [undated]"
  using fetchDashboardData_all_or_nothing[where statsResponse = "Resolved stats_example"
      and recentResponse = "Resolved [report]" and upcomingResponse = Rejected
      and s = dashboard_initial]
    fetchDashboardData_all_or_nothing[where statsResponse = "Resolved stats_example"
      and recentResponse = "Resolved [report]" and upcomingResponse = "Resolved [undated]"
      and st = stats_example and re = "[report]" and up = "[undated]" and s = dashboard_initial]
  by (simp add: dashboard_initial_def)

end
